theory Spec2Isabelle
  imports Main "HOL-Library.Sublist" "HOL-Library.AList"
begin

section \<open>Python text and byte strings\<close>

text \<open>
  The three scripts of the repository (\<^verbatim>\<open>git_dependency_visualizer.py\<close>,
  \<^verbatim>\<open>visualizer.py\<close> and \<^verbatim>\<open>test.py\<close>) read loose objects of a git object store,
  parse commit payloads and render a graph of parent links. Both \<^verbatim>\<open>bytes\<close> and
  \<^verbatim>\<open>str\<close> values are lists of \<^typ>\<open>char\<close>: a byte is a \<^typ>\<open>char\<close>, and a decoded text is
  represented by its code points, which covers every text whose code points are below 256.
  Decoding itself is an operation of the platform (see the record \<open>env\<close> below).
\<close>

type_synonym bytes = "char list"

definition LF :: char where "LF = CHR 0x0A"
definition CR :: char where "CR = CHR 0x0D"
definition NUL :: char where "NUL = CHR 0x00"
definition DQ :: char where "DQ = CHR 0x22"

text \<open>\<^verbatim>\<open>str.isspace\<close> on one character, for code points below 256.\<close>

definition isspace :: "char \<Rightarrow> bool" where
  "isspace c \<longleftrightarrow> c \<in> set [CHR 0x09, CHR 0x0A, CHR 0x0B, CHR 0x0C, CHR 0x0D,
      CHR 0x1C, CHR 0x1D, CHR 0x1E, CHR 0x1F, CHR 0x20, CHR 0x85, CHR 0xA0]"

text \<open>\<^verbatim>\<open>s.startswith(p)\<close>.\<close>

definition startswith :: "string \<Rightarrow> string \<Rightarrow> bool" where
  "startswith s p \<longleftrightarrow> take (length p) s = p"

text \<open>\<^verbatim>\<open>t in s\<close> for two strings: \<open>t\<close> occurs in \<open>s\<close> as a contiguous block.\<close>

fun contains :: "string \<Rightarrow> string \<Rightarrow> bool" where
  "contains [] t \<longleftrightarrow> t = []"
| "contains (c # cs) t \<longleftrightarrow> startswith (c # cs) t \<or> contains cs t"

text \<open>\<^verbatim>\<open>s.split()\<close>: the maximal runs of non-whitespace characters.\<close>

fun split_ws_from :: "string \<Rightarrow> string \<Rightarrow> string list" where
  "split_ws_from cur [] = (if cur = [] then [] else [cur])"
| "split_ws_from cur (c # cs) =
     (if isspace c then (if cur = [] then split_ws_from [] cs else cur # split_ws_from [] cs)
      else split_ws_from (cur @ [c]) cs)"

definition split_ws :: "string \<Rightarrow> string list" where
  "split_ws s = split_ws_from [] s"

text \<open>\<^verbatim>\<open>s.split(sep)\<close> for a one-character separator: never the empty list.\<close>

fun split_on :: "char \<Rightarrow> string \<Rightarrow> string list" where
  "split_on sep [] = [[]]"
| "split_on sep (c # cs) =
     (if c = sep then [] # split_on sep cs
      else (case split_on sep cs of [] \<Rightarrow> [[c]] | l # ls \<Rightarrow> (c # l) # ls))"

text \<open>\<^verbatim>\<open>s.split(sep, 1)\<close> for a one-character separator: one or two pieces.\<close>

definition split_once :: "char \<Rightarrow> string \<Rightarrow> string list" where
  "split_once sep s =
     (if sep \<in> set s then [takeWhile (\<lambda>c. c \<noteq> sep) s, tl (dropWhile (\<lambda>c. c \<noteq> sep) s)]
      else [s])"

text \<open>
  \<^verbatim>\<open>s.splitlines()\<close>: a carriage return followed by a line feed is one boundary, a text
  that ends in a boundary has no empty last line. The boundaries other than CR LF are
  given by the predicate: \<^verbatim>\<open>str\<close> and \<^verbatim>\<open>bytes\<close> differ there.
\<close>

fun splitlines_from :: "(char \<Rightarrow> bool) \<Rightarrow> string \<Rightarrow> string \<Rightarrow> string list" where
  "splitlines_from brk cur [] = (if cur = [] then [] else [cur])"
| "splitlines_from brk cur [c] = (if brk c then [cur] else [cur @ [c]])"
| "splitlines_from brk cur (c # d # cs) =
     (if c = CR \<and> d = LF then cur # splitlines_from brk [] cs
      else if brk c then cur # splitlines_from brk [] (d # cs)
      else splitlines_from brk (cur @ [c]) (d # cs))"

definition str_linebreak :: "char \<Rightarrow> bool" where
  "str_linebreak c \<longleftrightarrow> c \<in> set [CHR 0x0A, CHR 0x0D, CHR 0x0B, CHR 0x0C,
      CHR 0x1C, CHR 0x1D, CHR 0x1E, CHR 0x85]"

definition bytes_linebreak :: "char \<Rightarrow> bool" where
  "bytes_linebreak c \<longleftrightarrow> c = CHR 0x0A \<or> c = CHR 0x0D"

definition str_splitlines :: "string \<Rightarrow> string list" where
  "str_splitlines s = splitlines_from str_linebreak [] s"

definition bytes_splitlines :: "bytes \<Rightarrow> bytes list" where
  "bytes_splitlines s = splitlines_from bytes_linebreak [] s"

text \<open>\<^verbatim>\<open>s.strip()\<close>.\<close>

definition strip :: "string \<Rightarrow> string" where
  "strip s = rev (dropWhile isspace (rev (dropWhile isspace s)))"

text \<open>\<^verbatim>\<open>"\n".join(lines)\<close>.\<close>

fun join_lines :: "string list \<Rightarrow> string" where
  "join_lines [] = []"
| "join_lines [l] = l"
| "join_lines (l # m # ls) = l @ [LF] @ join_lines (m # ls)"

text \<open>
  \<^verbatim>\<open>int(s)\<close> on a string: surrounding whitespace, one optional sign, then decimal digits,
  where single underscores may stand between digits. \<open>None\<close> is the \<^verbatim>\<open>ValueError\<close>.
\<close>

definition isdigit :: "char \<Rightarrow> bool" where
  "isdigit c \<longleftrightarrow> c \<in> set ''0123456789''"

definition digit_val :: "char \<Rightarrow> nat" where
  "digit_val c = of_char c - 48"

fun int_digits :: "nat \<Rightarrow> bool \<Rightarrow> string \<Rightarrow> nat option" where
  "int_digits acc prev [] = (if prev then Some acc else None)"
| "int_digits acc prev (c # cs) =
     (if isdigit c then int_digits (acc * 10 + digit_val c) True cs
      else if c = CHR ''_'' \<and> prev then int_digits acc False cs
      else None)"

definition py_int :: "string \<Rightarrow> int option" where
  "py_int s =
     (case strip s of
        [] \<Rightarrow> None
      | c # cs \<Rightarrow>
          if c = CHR ''-'' then map_option (\<lambda>n. - int n) (int_digits 0 False cs)
          else if c = CHR ''+'' then map_option int (int_digits 0 False cs)
          else map_option int (int_digits 0 False (c # cs)))"

text \<open>\<^verbatim>\<open>str(i)\<close> for a counter that starts at 1 and only grows.\<close>

definition digit_char :: "nat \<Rightarrow> char" where
  "digit_char d = char_of (48 + d)"

function str_nat :: "nat \<Rightarrow> string" where
  "str_nat n = (if n < 10 then [digit_char n] else str_nat (n div 10) @ [digit_char (n mod 10)])"
  by pat_completeness auto
termination
  by (relation "measure id") auto

declare str_nat.simps [simp del]

section \<open>Paths and the platform\<close>

text \<open>\<^verbatim>\<open>os.path.join\<close> and \<^verbatim>\<open>os.path.basename\<close> of \<^verbatim>\<open>posixpath\<close>.\<close>

definition join2 :: "string \<Rightarrow> string \<Rightarrow> string" where
  "join2 a b =
     (if startswith b ''/'' then b
      else if a = [] \<or> last a = CHR ''/'' then a @ b
      else a @ ''/'' @ b)"

definition path_join :: "string \<Rightarrow> string list \<Rightarrow> string" where
  "path_join a ps = foldl join2 a ps"

definition basename :: "string \<Rightarrow> string" where
  "basename p = rev (takeWhile (\<lambda>c. c \<noteq> CHR ''/'') (rev p))"

text \<open>
  What the scripts ask of the operating system and of the libraries \<^verbatim>\<open>zlib\<close> and
  \<^verbatim>\<open>codecs\<close>: whether a path exists or is a directory, the bytes of a file opened in
  binary mode and the text of a file opened in text mode (\<open>Inl\<close>: the exception that
  \<^verbatim>\<open>open\<close> raises, \<^verbatim>\<open>FileNotFoundError\<close> for a path that does not exist), the pairs of
  directory and file names that \<^verbatim>\<open>os.walk\<close> yields, whether a file can be opened for
  writing, \<^verbatim>\<open>zlib.decompress\<close> (\<open>None\<close>: \<^verbatim>\<open>zlib.error\<close>) and
  \<^verbatim>\<open>bytes.decode('utf-8')\<close> (\<open>None\<close>: \<^verbatim>\<open>UnicodeDecodeError\<close>).
\<close>

text \<open>
  The exceptions that the modelled code raises. \<open>TimestampOutOfRange\<close> stands for what
  \<^verbatim>\<open>datetime.fromtimestamp\<close> raises outside the years 1 to 9999, \<open>OSError\<close> for a
  failure of \<^verbatim>\<open>open\<close> other than a missing file, \<open>Exception\<close> for the plain
  \<^verbatim>\<open>Exception\<close> that \<^verbatim>\<open>generate_graph_image\<close> raises.
\<close>

datatype py_error =
    FileNotFoundError
  | OSError
  | ZlibError
  | ValueError
  | TypeError
  | IndexError
  | KeyError
  | UnicodeDecodeError
  | TimestampOutOfRange
  | Exception

record env =
  path_exists :: "string \<Rightarrow> bool"
  path_isdir :: "string \<Rightarrow> bool"
  read_bytes :: "string \<Rightarrow> py_error + bytes"
  read_text :: "string \<Rightarrow> py_error + string"
  os_walk :: "string \<Rightarrow> (string \<times> string list) list"
  can_write :: "string \<Rightarrow> bool"
  zlib_decompress :: "bytes \<Rightarrow> bytes option"
  utf8_decode :: "bytes \<Rightarrow> string option"

text \<open>\<^verbatim>\<open>xs[1]\<close>, \<^verbatim>\<open>xs[2]\<close> and \<^verbatim>\<open>xs[-2]\<close> raise \<^verbatim>\<open>IndexError\<close> out of range.\<close>

definition item :: "'a list \<Rightarrow> nat \<Rightarrow> py_error + 'a" where
  "item xs i = (if i < length xs then Inr (xs ! i) else Inl IndexError)"

definition item_from_end :: "'a list \<Rightarrow> nat \<Rightarrow> py_error + 'a" where
  "item_from_end xs k =
     (if 0 < k \<and> k \<le> length xs then Inr (xs ! (length xs - k)) else Inl IndexError)"

section \<open>git\_dependency\_visualizer.py\<close>

text \<open>
  \<^verbatim>\<open>read_git_object\<close>: the file \<^verbatim>\<open>.git/objects/<hash[:2]>/<hash[2:]>\<close> is opened,
  decompressed and split at the first null byte; the header is decoded, the data stays
  in bytes. Unpacking the split into two names raises \<^verbatim>\<open>ValueError\<close> when there is no
  null byte. The length that the header declares is not read.
\<close>

definition gdv_read_git_object :: "env \<Rightarrow> string \<Rightarrow> string \<Rightarrow> py_error + (string \<times> bytes)" where
  "gdv_read_git_object e repo_path object_hash =
     (let obj_dir = path_join repo_path [''.git'', ''objects'', take 2 object_hash];
          obj_file = path_join obj_dir [drop 2 object_hash]
      in case read_bytes e obj_file of
           Inl err \<Rightarrow> Inl err
         | Inr compressed_data \<Rightarrow>
             (case zlib_decompress e compressed_data of
                None \<Rightarrow> Inl ZlibError
              | Some decompressed_data \<Rightarrow>
                  (case split_once NUL decompressed_data of
                     [header, data] \<Rightarrow>
                       (case utf8_decode e header of
                          None \<Rightarrow> Inl UnicodeDecodeError
                        | Some h \<Rightarrow> Inr (h, data))
                   | _ \<Rightarrow> Inl ValueError)))"

text \<open>
  \<^verbatim>\<open>parse_commit_data\<close> takes whatever it is given: \<^verbatim>\<open>find_commits\<close> passes the decoded
  text, \<^verbatim>\<open>build_dependency_graph\<close> passes the undecoded bytes. On bytes, the comparison
  \<^verbatim>\<open>line == ""\<close> is false for every line and \<^verbatim>\<open>line.split(" ", 1)\<close> raises
  \<^verbatim>\<open>TypeError\<close>, so only a payload without any line is parsed. On text, each header line
  up to the first empty one is split at its first space and stored under its key: a
  later line with the same key replaces the earlier value.
\<close>

datatype pytext = PyStr string | PyBytes bytes

fun parse_header_lines :: "string list \<Rightarrow> (string \<rightharpoonup> string) \<Rightarrow> py_error + (string \<rightharpoonup> string)" where
  "parse_header_lines [] metadata = Inr metadata"
| "parse_header_lines (line # lines) metadata =
     (if line = [] then Inr metadata
      else (case split_once (CHR '' '') line of
              [key, val] \<Rightarrow> parse_header_lines lines (metadata(key \<mapsto> val))
            | _ \<Rightarrow> Inl ValueError))"

fun gdv_parse_commit_data :: "pytext \<Rightarrow> py_error + (string \<rightharpoonup> string)" where
  "gdv_parse_commit_data (PyStr commit_data) =
     parse_header_lines (str_splitlines commit_data) Map.empty"
| "gdv_parse_commit_data (PyBytes commit_data) =
     (case bytes_splitlines commit_data of [] \<Rightarrow> Inr Map.empty | _ \<Rightarrow> Inl TypeError)"

text \<open>\<^verbatim>\<open>metadata.get(key, "")\<close>.\<close>

definition get_or_empty :: "(string \<rightharpoonup> string) \<Rightarrow> string \<Rightarrow> string" where
  "get_or_empty metadata key = (case metadata key of None \<Rightarrow> [] | Some v \<Rightarrow> v)"

text \<open>\<^verbatim>\<open>list_git_objects\<close>: every file name of 38 characters, behind its directory's name.\<close>

fun objects_in_dir :: "string \<Rightarrow> string list \<Rightarrow> string list" where
  "objects_in_dir root [] = []"
| "objects_in_dir root (file # files) =
     (if length file = 38 then (basename root @ file) # objects_in_dir root files
      else objects_in_dir root files)"

fun objects_in_walk :: "(string \<times> string list) list \<Rightarrow> string list" where
  "objects_in_walk [] = []"
| "objects_in_walk ((root, files) # rest) = objects_in_dir root files @ objects_in_walk rest"

definition list_git_objects :: "env \<Rightarrow> string \<Rightarrow> string list" where
  "list_git_objects e repo_path =
     objects_in_walk (os_walk e (path_join repo_path [''.git'', ''objects'']))"

text \<open>
  \<^verbatim>\<open>find_commits\<close>. What the scripts print is kept as a list of messages. The call of
  \<^verbatim>\<open>read_git_object\<close> stands before the \<^verbatim>\<open>try\<close>, and the handler catches
  \<^verbatim>\<open>UnicodeDecodeError\<close> only.
\<close>

datatype printed =
    DecodeFailed string
  | NotARepository string
  | NoCommitsFound string
  | GraphWritten string
  | WriteFailed string
  | GraphvizCode string
  | GraphSaved string
  | ErrorPrinted py_error
  | Usage

fun find_commits_loop ::
  "env \<Rightarrow> string \<Rightarrow> string \<Rightarrow> string list \<Rightarrow> string list \<Rightarrow> printed list
     \<Rightarrow> printed list \<times> (py_error + string list)" where
  "find_commits_loop e repo_path target_file [] commits out = (out, Inr commits)"
| "find_commits_loop e repo_path target_file (obj_hash # objects) commits out =
     (case gdv_read_git_object e repo_path obj_hash of
        Inl err \<Rightarrow> (out, Inl err)
      | Inr (header, data) \<Rightarrow>
          if startswith header ''commit'' then
            (case utf8_decode e data of
               None \<Rightarrow>
                 find_commits_loop e repo_path target_file objects commits
                   (out @ [DecodeFailed obj_hash])
             | Some commit_data \<Rightarrow>
                 (case gdv_parse_commit_data (PyStr commit_data) of
                    Inl err \<Rightarrow> (out, Inl err)
                  | Inr parsed_data \<Rightarrow>
                      if contains (get_or_empty parsed_data ''tree'') target_file
                      then find_commits_loop e repo_path target_file objects
                             (commits @ [obj_hash]) out
                      else find_commits_loop e repo_path target_file objects commits out))
          else find_commits_loop e repo_path target_file objects commits out)"

definition find_commits :: "env \<Rightarrow> string \<Rightarrow> string \<Rightarrow> printed list \<times> (py_error + string list)" where
  "find_commits e repo_path target_file =
     find_commits_loop e repo_path target_file (list_git_objects e repo_path) [] []"

text \<open>
  \<^verbatim>\<open>build_dependency_graph\<close>. A dictionary keeps its keys in the order of their first
  insertion, which \<^const>\<open>AList.update\<close> does on an association list.
\<close>

type_synonym graph = "(string \<times> string list) list"

fun build_dependency_graph_loop :: "env \<Rightarrow> string \<Rightarrow> string list \<Rightarrow> graph \<Rightarrow> py_error + graph" where
  "build_dependency_graph_loop e repo_path [] graph = Inr graph"
| "build_dependency_graph_loop e repo_path (commit_hash # commits) graph =
     (case gdv_read_git_object e repo_path commit_hash of
        Inl err \<Rightarrow> Inl err
      | Inr (header, data) \<Rightarrow>
          (case gdv_parse_commit_data (PyBytes data) of
             Inl err \<Rightarrow> Inl err
           | Inr metadata \<Rightarrow>
               build_dependency_graph_loop e repo_path commits
                 (AList.update commit_hash (split_ws (get_or_empty metadata ''parent'')) graph)))"

definition build_dependency_graph :: "env \<Rightarrow> string \<Rightarrow> string list \<Rightarrow> py_error + graph" where
  "build_dependency_graph e repo_path commits = build_dependency_graph_loop e repo_path commits []"

text \<open>\<^verbatim>\<open>generate_graphviz\<close>: a node statement for every commit, then one edge for each parent.\<close>

definition dot_node :: "string \<Rightarrow> string" where
  "dot_node commit = ''    '' @ [DQ] @ commit @ [DQ] @ '' [label='' @ [DQ] @ commit @ [DQ] @ ''];''"

definition dot_edge :: "string \<Rightarrow> string \<Rightarrow> string" where
  "dot_edge commit parent = ''    '' @ [DQ] @ commit @ [DQ] @ '' -> '' @ [DQ] @ parent @ [DQ] @ '';''"

fun dot_edges :: "string \<Rightarrow> string list \<Rightarrow> string list \<Rightarrow> string list" where
  "dot_edges commit [] dot = dot"
| "dot_edges commit (parent # parents) dot = dot_edges commit parents (dot @ [dot_edge commit parent])"

fun dot_items :: "graph \<Rightarrow> string list \<Rightarrow> string list" where
  "dot_items [] dot = dot"
| "dot_items ((commit, parents) # items) dot =
     dot_items items (dot_edges commit parents (dot @ [dot_node commit]))"

definition generate_graphviz_lines :: "graph \<Rightarrow> string list" where
  "generate_graphviz_lines graph =
     dot_items graph [''digraph G {'', ''    node [shape=box, fontsize=10];''] @ [''}'']"

definition generate_graphviz :: "graph \<Rightarrow> string" where
  "generate_graphviz graph = join_lines (generate_graphviz_lines graph)"

text \<open>
  \<^verbatim>\<open>main\<close> after the arguments are parsed: what is printed, the file that is written, and
  how the run ends (\<^verbatim>\<open>exit(n)\<close>, an exception that nothing catches, or the end of
  \<^verbatim>\<open>main\<close>).
\<close>

datatype ending = Exit nat | Uncaught py_error | Returned

definition gdv_main ::
  "env \<Rightarrow> string \<Rightarrow> string \<Rightarrow> string \<Rightarrow> printed list \<times> (string \<times> string) option \<times> ending" where
  "gdv_main e repo_path target_file output_file =
     (if \<not> path_isdir e (path_join repo_path [''.git''])
      then ([NotARepository repo_path], None, Exit 1)
      else
        (case find_commits e repo_path target_file of
           (out, Inl err) \<Rightarrow> (out, None, Uncaught err)
         | (out, Inr commits) \<Rightarrow>
             if commits = [] then (out @ [NoCommitsFound target_file], None, Exit 0)
             else
               (case build_dependency_graph e repo_path commits of
                  Inl err \<Rightarrow> (out, None, Uncaught err)
                | Inr graph \<Rightarrow>
                    (let graphviz_code = generate_graphviz graph
                     in if can_write e output_file
                        then (out @ [GraphWritten output_file, GraphvizCode graphviz_code],
                              Some (output_file, graphviz_code), Returned)
                        else (out @ [WriteFailed output_file], None, Exit 1)))))"

section \<open>visualizer.py\<close>

text \<open>
  \<^verbatim>\<open>read_git_object\<close> of this script checks that the file exists and returns everything
  that decompression yields: the header is not split off.
\<close>

definition vis_read_git_object :: "env \<Rightarrow> string \<Rightarrow> string \<Rightarrow> py_error + bytes" where
  "vis_read_git_object e repo_path object_hash =
     (let object_dir = path_join repo_path [''.git'', ''objects'', take 2 object_hash];
          object_file_path = path_join object_dir [drop 2 object_hash]
      in if \<not> path_exists e object_file_path then Inl FileNotFoundError
         else
           (case read_bytes e object_file_path of
              Inl err \<Rightarrow> Inl err
            | Inr compressed_data \<Rightarrow>
                (case zlib_decompress e compressed_data of
                   None \<Rightarrow> Inl ZlibError
                 | Some data \<Rightarrow> Inr data)))"

text \<open>
  \<^verbatim>\<open>parse_commit_object\<close>: the lines up to the first empty one; every line that starts
  with \<^verbatim>\<open>parent\<close> appends its second word to the parents.
\<close>

fun parse_commit_lines ::
  "string list \<Rightarrow> string option \<Rightarrow> string list \<Rightarrow> int option
     \<Rightarrow> py_error + (string option \<times> string list \<times> int option)" where
  "parse_commit_lines [] tree_hash parents author_time = Inr (tree_hash, parents, author_time)"
| "parse_commit_lines (line # lines) tree_hash parents author_time =
     (if startswith line ''tree'' then
        (case item (split_ws line) 1 of
           Inl err \<Rightarrow> Inl err
         | Inr w \<Rightarrow> parse_commit_lines lines (Some w) parents author_time)
      else if startswith line ''parent'' then
        (case item (split_ws line) 1 of
           Inl err \<Rightarrow> Inl err
         | Inr w \<Rightarrow> parse_commit_lines lines tree_hash (parents @ [w]) author_time)
      else if startswith line ''author'' then
        (case item_from_end (split_ws line) 2 of
           Inl err \<Rightarrow> Inl err
         | Inr w \<Rightarrow>
             (case py_int w of
                None \<Rightarrow> Inl ValueError
              | Some t \<Rightarrow> parse_commit_lines lines tree_hash parents (Some t)))
      else if line = [] then Inr (tree_hash, parents, author_time)
      else parse_commit_lines lines tree_hash parents author_time)"

definition parse_commit_object ::
  "string \<Rightarrow> py_error + (string option \<times> string list \<times> int option)" where
  "parse_commit_object commit_data = parse_commit_lines (split_on LF commit_data) None [] None"

text \<open>
  \<^verbatim>\<open>get_all_commits\<close>: every file that \<^verbatim>\<open>os.walk\<close> yields is tried; any exception on
  the way (also the \<^verbatim>\<open>TypeError\<close> of comparing a missing author time) skips the file.
  \<^verbatim>\<open>list.sort\<close> is stable, as \<^const>\<open>sort_key\<close> is.
\<close>

fun scan_files ::
  "env \<Rightarrow> string \<Rightarrow> int \<Rightarrow> string \<Rightarrow> string list \<Rightarrow> (string \<times> int) list \<Rightarrow> (string \<times> int) list" where
  "scan_files e repo_path date_before root [] commits = commits"
| "scan_files e repo_path date_before root (filename # files) commits =
     (let object_hash = basename root @ filename
      in case vis_read_git_object e repo_path object_hash of
           Inl err \<Rightarrow> scan_files e repo_path date_before root files commits
         | Inr object_data \<Rightarrow>
             if startswith object_data ''commit'' then
               (case utf8_decode e object_data of
                  None \<Rightarrow> scan_files e repo_path date_before root files commits
                | Some commit_data \<Rightarrow>
                    (case parse_commit_object commit_data of
                       Inl err \<Rightarrow> scan_files e repo_path date_before root files commits
                     | Inr (tree_hash, parents, None) \<Rightarrow>
                         scan_files e repo_path date_before root files commits
                     | Inr (tree_hash, parents, Some author_time) \<Rightarrow>
                         if author_time \<le> date_before
                         then scan_files e repo_path date_before root files
                                (commits @ [(object_hash, author_time)])
                         else scan_files e repo_path date_before root files commits))
             else scan_files e repo_path date_before root files commits)"

fun scan_walk ::
  "env \<Rightarrow> string \<Rightarrow> int \<Rightarrow> (string \<times> string list) list \<Rightarrow> (string \<times> int) list \<Rightarrow> (string \<times> int) list" where
  "scan_walk e repo_path date_before [] commits = commits"
| "scan_walk e repo_path date_before ((root, files) # rest) commits =
     scan_walk e repo_path date_before rest (scan_files e repo_path date_before root files commits)"

definition scanned_commits :: "env \<Rightarrow> string \<Rightarrow> int \<Rightarrow> (string \<times> int) list" where
  "scanned_commits e repo_path date_before =
     scan_walk e repo_path date_before (os_walk e (path_join repo_path [''.git'', ''objects''])) []"

definition get_all_commits :: "env \<Rightarrow> string \<Rightarrow> int \<Rightarrow> string list" where
  "get_all_commits e repo_path date_before =
     map fst (sort_key snd (scanned_commits e repo_path date_before))"

text \<open>\<^verbatim>\<open>build_commit_graph\<close>: here nothing catches an exception.\<close>

fun build_commit_graph_loop :: "env \<Rightarrow> string \<Rightarrow> string list \<Rightarrow> graph \<Rightarrow> py_error + graph" where
  "build_commit_graph_loop e repo_path [] commit_graph = Inr commit_graph"
| "build_commit_graph_loop e repo_path (commit_hash # commit_hashes) commit_graph =
     (case vis_read_git_object e repo_path commit_hash of
        Inl err \<Rightarrow> Inl err
      | Inr object_data \<Rightarrow>
          (case utf8_decode e object_data of
             None \<Rightarrow> Inl UnicodeDecodeError
           | Some commit_data \<Rightarrow>
               (case parse_commit_object commit_data of
                  Inl err \<Rightarrow> Inl err
                | Inr (tree_hash, parents, author_time) \<Rightarrow>
                    build_commit_graph_loop e repo_path commit_hashes
                      (AList.update commit_hash parents commit_graph))))"

definition build_commit_graph :: "env \<Rightarrow> string \<Rightarrow> int \<Rightarrow> py_error + graph" where
  "build_commit_graph e repo_path date_before =
     build_commit_graph_loop e repo_path (get_all_commits e repo_path date_before) []"

text \<open>
  \<^verbatim>\<open>generate_plantuml\<close>: one line for each parent of each commit, numbered by a counter
  that starts at 1; a commit without parents adds nothing.
\<close>

definition puml_edge :: "string \<Rightarrow> string \<Rightarrow> nat \<Rightarrow> string" where
  "puml_edge parent commit i =
     [DQ] @ parent @ '' ('' @ str_nat i @ '')'' @ [DQ] @ '' --> '' @
     [DQ] @ commit @ '' ('' @ str_nat (i + 1) @ '')'' @ [DQ]"

fun puml_edges :: "string \<Rightarrow> string list \<Rightarrow> nat \<Rightarrow> string list \<Rightarrow> nat \<times> string list" where
  "puml_edges commit [] i plantuml_lines = (i, plantuml_lines)"
| "puml_edges commit (parent # parents) i plantuml_lines =
     puml_edges commit parents (i + 1) (plantuml_lines @ [puml_edge parent commit i])"

fun puml_items :: "graph \<Rightarrow> nat \<Rightarrow> string list \<Rightarrow> string list" where
  "puml_items [] i plantuml_lines = plantuml_lines"
| "puml_items ((commit, parents) # items) i plantuml_lines =
     (if parents \<noteq> [] then
        (case puml_edges commit parents i plantuml_lines of
           (j, ls) \<Rightarrow> puml_items items j ls)
      else puml_items items i plantuml_lines)"

definition generate_plantuml_lines :: "graph \<Rightarrow> string list" where
  "generate_plantuml_lines commit_graph = puml_items commit_graph 1 [''@startuml''] @ [''@enduml'']"

definition generate_plantuml :: "graph \<Rightarrow> string" where
  "generate_plantuml commit_graph = join_lines (generate_plantuml_lines commit_graph)"

text \<open>
  \<^verbatim>\<open>s.replace(old, new)\<close>, which the script calls with the non-empty \<^verbatim>\<open>old\<close> strings
  \<^verbatim>\<open>.png\<close> and \<^verbatim>\<open>.puml\<close>: every occurrence from the left, without overlap. And
  \<^verbatim>\<open>os.path.dirname\<close> of \<^verbatim>\<open>posixpath\<close>.
\<close>

function replace_all :: "string \<Rightarrow> string \<Rightarrow> string \<Rightarrow> string" where
  "replace_all old new [] = []"
| "replace_all old new (c # cs) =
     (if old \<noteq> [] \<and> startswith (c # cs) old
      then new @ replace_all old new (drop (length old) (c # cs))
      else c # replace_all old new cs)"
  by pat_completeness auto
termination
  by (relation "measure (\<lambda>(old, new, s). length s)") auto

definition dirname :: "string \<Rightarrow> string" where
  "dirname p =
     (let head = take (length p - length (basename p)) p
      in if head \<noteq> [] \<and> head \<noteq> replicate (length head) (CHR ''/'')
         then rev (dropWhile (\<lambda>c. c = CHR ''/'') (rev head))
         else head)"

text \<open>
  What \<^verbatim>\<open>main\<close> of this script asks beyond the object store: the value of
  \<^verbatim>\<open>int(datetime.strptime(s, "%Y-%m-%d").timestamp())\<close> (\<open>Inl\<close>: the format does not
  match), the return code of \<^verbatim>\<open>subprocess.run\<close> on a command, given the file that was
  written before (\<open>Inl\<close>: the program cannot be started), and \<^verbatim>\<open>os.rename\<close>
  (\<open>Some\<close>: the exception it raises).
\<close>

record host =
  strptime_timestamp :: "string \<Rightarrow> py_error + int"
  subprocess_run :: "string list \<Rightarrow> string \<times> string \<Rightarrow> py_error + int"
  os_rename :: "string \<Rightarrow> string \<Rightarrow> py_error option"

text \<open>\<^verbatim>\<open>generate_graph_image\<close>, after the file \<open>written\<close> has been saved.\<close>

definition generate_graph_image ::
  "host \<Rightarrow> string \<times> string \<Rightarrow> string \<Rightarrow> string \<Rightarrow> string \<Rightarrow> py_error + unit" where
  "generate_graph_image hst written plantuml_file_path output_image_path plantuml_jar_path =
     (let plantuml_cmd = [''java'', ''-jar'', plantuml_jar_path, plantuml_file_path, ''-tpng'',
            ''-o'', dirname output_image_path]
      in case subprocess_run hst plantuml_cmd written of
           Inl err \<Rightarrow> Inl err
         | Inr returncode \<Rightarrow>
             if returncode \<noteq> 0 then Inl Exception
             else
               (let generated_image_path = replace_all ''.puml'' ''.png'' plantuml_file_path
                in case os_rename hst generated_image_path output_image_path of
                     Some err \<Rightarrow> Inl err
                   | None \<Rightarrow> Inr ()))"

text \<open>
  \<^verbatim>\<open>main\<close>: the graph is built, rendered, saved and handed to the external renderer.
  Nothing on the way looks whether the graph is empty. The result is what was printed,
  the file that was written, and either the exception that leaves \<^verbatim>\<open>main\<close> or its
  normal end.
\<close>

definition vis_main ::
  "env \<Rightarrow> host \<Rightarrow> string \<Rightarrow> string \<Rightarrow> string \<Rightarrow> string
     \<Rightarrow> printed list \<times> (string \<times> string) option \<times> (py_error + unit)" where
  "vis_main e hst repo_path date_before output_image_path plantuml_jar_path =
     (case strptime_timestamp hst date_before of
        Inl err \<Rightarrow> ([], None, Inl err)
      | Inr date_before_timestamp \<Rightarrow>
          (case build_commit_graph e repo_path date_before_timestamp of
             Inl err \<Rightarrow> ([], None, Inl err)
           | Inr commit_graph \<Rightarrow>
               (let plantuml_text = generate_plantuml commit_graph;
                    plantuml_file_path = replace_all ''.png'' ''.puml'' output_image_path
                in if \<not> can_write e plantuml_file_path then ([], None, Inl OSError)
                   else
                     (case generate_graph_image hst (plantuml_file_path, plantuml_text)
                             plantuml_file_path output_image_path plantuml_jar_path of
                        Inl err \<Rightarrow> ([], Some (plantuml_file_path, plantuml_text), Inl err)
                      | Inr u \<Rightarrow>
                          ([GraphSaved output_image_path],
                           Some (plantuml_file_path, plantuml_text), Inr ())))))"

text \<open>
  The script itself, on the arguments after its name: four are required, and any
  exception of \<^verbatim>\<open>main\<close> is printed before \<^verbatim>\<open>sys.exit(1)\<close>.
\<close>

definition vis_script ::
  "env \<Rightarrow> host \<Rightarrow> string list \<Rightarrow> printed list \<times> (string \<times> string) option \<times> ending" where
  "vis_script e hst args =
     (case args of
        [repo_path, date_before, output_image_path, plantuml_jar_path] \<Rightarrow>
          (case vis_main e hst repo_path date_before output_image_path plantuml_jar_path of
             (out, written, Inl err) \<Rightarrow> (out @ [ErrorPrinted err], written, Exit 1)
           | (out, written, Inr u) \<Rightarrow> (out, written, Returned))
      | _ \<Rightarrow> ([Usage], None, Exit 1))"

section \<open>test.py\<close>

text \<open>
  The dictionary that \<^verbatim>\<open>parse_commit_data\<close> fills has a fixed set of keys: a record
  with one optional field for each key that may be missing.
\<close>

record commit =
  commit_hash :: string
  parent :: "string option"
  author :: "string option"
  committer :: "string option"
  committer_email :: "string option"
  committer_timestamp :: "int option"
  tree :: "string option"
  message :: "string option"

definition new_commit :: "string \<Rightarrow> commit" where
  "new_commit h = \<lparr>commit_hash = h, parent = None, author = None, committer = None,
     committer_email = None, committer_timestamp = None, tree = None, message = None\<rparr>"

text \<open>
  \<^verbatim>\<open>parse_commit_data\<close> of this script reads every line of the payload, also those after
  the empty line, and each line that starts with \<^verbatim>\<open>parent\<close> stores its second word under
  the one key \<^verbatim>\<open>parent\<close>.
\<close>

fun test_parse_lines :: "string list \<Rightarrow> commit \<Rightarrow> py_error + commit" where
  "test_parse_lines [] commit_data = Inr commit_data"
| "test_parse_lines (line # lines) commit_data =
     (if startswith line ''parent'' then
        (case item (split_ws line) 1 of
           Inl err \<Rightarrow> Inl err
         | Inr w \<Rightarrow> test_parse_lines lines (commit_data\<lparr>parent := Some w\<rparr>))
      else if startswith line ''author'' then
        (case item (split_ws line) 1 of
           Inl err \<Rightarrow> Inl err
         | Inr w \<Rightarrow> test_parse_lines lines (commit_data\<lparr>author := Some w\<rparr>))
      else if startswith line ''committer'' then
        (let committer_parts = split_ws line
         in case item committer_parts 1 of
              Inl err \<Rightarrow> Inl err
            | Inr name \<Rightarrow>
                (case item committer_parts 2 of
                   Inl err \<Rightarrow> Inl err
                 | Inr email \<Rightarrow>
                     (case item_from_end committer_parts 2 of
                        Inl err \<Rightarrow> Inl err
                      | Inr w \<Rightarrow>
                          (case py_int w of
                             None \<Rightarrow> Inl ValueError
                           | Some t \<Rightarrow>
                               test_parse_lines lines
                                 (commit_data\<lparr>committer := Some name, committer_email := Some email,
                                    committer_timestamp := Some t\<rparr>)))))
      else if startswith line ''tree'' then
        (case item (split_ws line) 1 of
           Inl err \<Rightarrow> Inl err
         | Inr w \<Rightarrow> test_parse_lines lines (commit_data\<lparr>tree := Some w\<rparr>))
      else if startswith line ''message'' then
        (case item (split_ws line) 1 of
           Inl err \<Rightarrow> Inl err
         | Inr w \<Rightarrow> test_parse_lines lines (commit_data\<lparr>message := Some w\<rparr>))
      else test_parse_lines lines commit_data)"

definition test_parse_commit_data :: "env \<Rightarrow> bytes \<Rightarrow> string \<Rightarrow> py_error + commit" where
  "test_parse_commit_data e data h =
     (case utf8_decode e data of
        None \<Rightarrow> Inl UnicodeDecodeError
      | Some text \<Rightarrow> test_parse_lines (split_on LF text) (new_commit h))"

text \<open>
  \<^verbatim>\<open>read_commit\<close>, together with the accesses to the file system that it makes, in the
  order in which it makes them.
\<close>

datatype fs_access = PathExists string | OpenFile string

definition read_commit :: "env \<Rightarrow> string \<Rightarrow> string \<Rightarrow> fs_access list \<times> (py_error + commit)" where
  "read_commit e h repo_path =
     (let objects_path = path_join repo_path [''.git'', ''objects'']
      in if length h < 40 then ([], Inl ValueError)
         else
           (let object_dir = take 2 h;
                object_file = drop 2 h;
                commit_file_path = path_join objects_path [object_dir, object_file]
            in if \<not> path_exists e commit_file_path
               then ([PathExists commit_file_path], Inl FileNotFoundError)
               else
                 (case read_bytes e commit_file_path of
                    Inl err \<Rightarrow> ([PathExists commit_file_path, OpenFile commit_file_path], Inl err)
                  | Inr file_content \<Rightarrow>
                      ([PathExists commit_file_path, OpenFile commit_file_path],
                       (case zlib_decompress e file_content of
                          None \<Rightarrow> Inl ZlibError
                        | Some decompressed_data \<Rightarrow>
                            test_parse_commit_data e decompressed_data h)))))"

text \<open>\<^verbatim>\<open>get_commit_hash_from_ref\<close>.\<close>

definition get_commit_hash_from_ref :: "env \<Rightarrow> string \<Rightarrow> string \<Rightarrow> py_error + string" where
  "get_commit_hash_from_ref e branch_ref repo_path =
     (case read_text e (path_join repo_path [''.git'', branch_ref]) of
        Inl err \<Rightarrow> Inl err
      | Inr content \<Rightarrow> Inr (strip content))"

text \<open>
  A \<^verbatim>\<open>datetime\<close> with the time zone UTC is the number of microseconds since the epoch.
  \<^verbatim>\<open>datetime.fromtimestamp(t, timezone.utc)\<close> exists for the years 1 to 9999 only.
\<close>

type_synonym datetime = int

definition datetime_fromtimestamp :: "int \<Rightarrow> py_error + datetime" where
  "datetime_fromtimestamp t =
     (if - 62135596800 \<le> t \<and> t \<le> 253402300799 then Inr (t * 1000000)
      else Inl TimestampOutOfRange)"

text \<open>
  The loop of \<^verbatim>\<open>get_commits_after_date\<close>. Nothing in the code bounds the number of
  rounds, so the model counts them down: \<open>None\<close> says that the rounds given were not enough.
\<close>

fun walk_commits ::
  "nat \<Rightarrow> env \<Rightarrow> string \<Rightarrow> datetime \<Rightarrow> string \<Rightarrow> commit list \<Rightarrow> (py_error + commit list) option" where
  "walk_commits 0 e repo_path start_date current_commit_hash commits = None"
| "walk_commits (Suc n) e repo_path start_date current_commit_hash commits =
     (if current_commit_hash = [] then Some (Inr commits)
      else
        (case snd (read_commit e current_commit_hash repo_path) of
           Inl err \<Rightarrow> Some (Inl err)
         | Inr commit_data \<Rightarrow>
             (case committer_timestamp commit_data of
                None \<Rightarrow> Some (Inl KeyError)
              | Some t \<Rightarrow>
                  (case datetime_fromtimestamp t of
                     Inl err \<Rightarrow> Some (Inl err)
                   | Inr commit_date \<Rightarrow>
                       (let commits' = (if commit_date \<ge> start_date then commits @ [commit_data]
                                        else commits)
                        in case parent commit_data of
                             None \<Rightarrow> Some (Inr commits')
                           | Some p \<Rightarrow>
                               if p = [] then Some (Inr commits')
                               else walk_commits n e repo_path start_date p commits')))))"

definition get_commits_after_date ::
  "nat \<Rightarrow> env \<Rightarrow> string \<Rightarrow> datetime \<Rightarrow> (py_error + commit list) option" where
  "get_commits_after_date n e repo_path start_date =
     (case read_text e (path_join repo_path [''.git'', ''HEAD'']) of
        Inl err \<Rightarrow> Some (Inl err)
      | Inr content \<Rightarrow>
          (let ref = strip content
           in if startswith ref ''ref:'' then
                (case item (split_ws ref) 1 of
                   Inl err \<Rightarrow> Some (Inl err)
                 | Inr branch_ref \<Rightarrow>
                     (case get_commit_hash_from_ref e branch_ref repo_path of
                        Inl err \<Rightarrow> Some (Inl err)
                      | Inr branch_commit_hash \<Rightarrow>
                          walk_commits n e repo_path start_date branch_commit_hash []))
              else walk_commits n e repo_path start_date ref []))"

section \<open>Notions used to state the properties\<close>

text \<open>The path of the loose object with a given hash.\<close>

definition loose_object_path :: "string \<Rightarrow> string \<Rightarrow> string" where
  "loose_object_path repo_path h = path_join repo_path [''.git'', ''objects'', take 2 h, drop 2 h]"

text \<open>
  The header lines of a payload (those before the first empty line) that start with
  \<^verbatim>\<open>parent\<close>, as \<^verbatim>\<open>str.splitlines\<close> and as \<^verbatim>\<open>str.split('\n')\<close> cut the lines.
\<close>

definition parent_header_lines :: "string list \<Rightarrow> string list" where
  "parent_header_lines lines =
     filter (\<lambda>line. startswith line ''parent'') (takeWhile (\<lambda>line. line \<noteq> []) lines)"

text \<open>The lines of a whole payload that start with \<^verbatim>\<open>parent\<close>, and the hash on the last one.\<close>

definition parent_lines :: "string \<Rightarrow> string list" where
  "parent_lines text = filter (\<lambda>line. startswith line ''parent'') (split_on LF text)"

definition last_parent :: "string \<Rightarrow> string option" where
  "last_parent text =
     (case parent_lines text of [] \<Rightarrow> None | l # ls \<Rightarrow> Some (split_ws (last (l # ls)) ! 1))"

text \<open>
  The hashes that the scan of \<^verbatim>\<open>get_all_commits\<close> forms, in the order of \<^verbatim>\<open>os.walk\<close>,
  and the author time of the object with a given hash when it reads, decodes and parses
  as a commit with an \<^verbatim>\<open>author\<close> line.
\<close>

definition walked_hashes :: "env \<Rightarrow> string \<Rightarrow> string list" where
  "walked_hashes e repo_path =
     concat (map (\<lambda>(root, files). map (\<lambda>filename. basename root @ filename) files)
       (os_walk e (path_join repo_path [''.git'', ''objects''])))"

definition author_time_of :: "env \<Rightarrow> string \<Rightarrow> string \<Rightarrow> int option" where
  "author_time_of e repo_path h =
     (case vis_read_git_object e repo_path h of
        Inl err \<Rightarrow> None
      | Inr object_data \<Rightarrow>
          if startswith object_data ''commit'' then
            (case utf8_decode e object_data of
               None \<Rightarrow> None
             | Some commit_data \<Rightarrow>
                 (case parse_commit_object commit_data of
                    Inl err \<Rightarrow> None
                  | Inr (tree_hash, parents, author_time) \<Rightarrow> author_time))
          else None)"

text \<open>What the scan keeps of one hash: the hash with its author time, if that is not after the cutoff.\<close>

definition kept_entry :: "env \<Rightarrow> string \<Rightarrow> int \<Rightarrow> string \<Rightarrow> (string \<times> int) list" where
  "kept_entry e repo_path date_before h =
     (case author_time_of e repo_path h of
        None \<Rightarrow> []
      | Some t \<Rightarrow> if t \<le> date_before then [(h, t)] else [])"

text \<open>
  The commits that \<^verbatim>\<open>find_commits\<close> is meant to keep: the object reads, its header says
  \<^verbatim>\<open>commit\<close>, its payload decodes and parses, and the target occurs in the value stored
  under \<^verbatim>\<open>tree\<close>.
\<close>

definition tree_mentions :: "env \<Rightarrow> string \<Rightarrow> string \<Rightarrow> string \<Rightarrow> bool" where
  "tree_mentions e repo_path target_file h \<longleftrightarrow>
     (case gdv_read_git_object e repo_path h of
        Inl err \<Rightarrow> False
      | Inr (header, data) \<Rightarrow>
          startswith header ''commit'' \<and>
          (case utf8_decode e data of
             None \<Rightarrow> False
           | Some commit_data \<Rightarrow>
               (case gdv_parse_commit_data (PyStr commit_data) of
                  Inl err \<Rightarrow> False
                | Inr parsed_data \<Rightarrow> sublist target_file (get_or_empty parsed_data ''tree''))))"

section \<open>Example repositories\<close>

text \<open>
  A stand-in for \<^verbatim>\<open>zlib\<close>, as the test of \<^verbatim>\<open>test.py\<close> replaces it: a stored file is the
  object behind the marker byte \<^verbatim>\<open>x\<close>, anything else does not decompress. The decoder
  accepts ASCII, where it agrees with UTF-8.
\<close>

definition toy_decompress :: "bytes \<Rightarrow> bytes option" where
  "toy_decompress b = (if startswith b ''x'' then Some (drop 1 b) else None)"

definition ascii_decode :: "bytes \<Rightarrow> string option" where
  "ascii_decode b = (if list_all (\<lambda>c. (of_char c :: nat) < 128) b then Some b else None)"

definition fixture :: "(string \<times> bytes) list \<Rightarrow> (string \<times> string) list \<Rightarrow> env" where
  "fixture objs texts =
     \<lparr>path_exists = (\<lambda>p. p \<in> set (map (\<lambda>(h, b). loose_object_path ''/repo'' h) objs)),
      path_isdir = (\<lambda>p. p = ''/repo/.git''),
      read_bytes = (\<lambda>p. case map_of (map (\<lambda>(h, b). (loose_object_path ''/repo'' h, b)) objs) p of
                          None \<Rightarrow> Inl FileNotFoundError | Some b \<Rightarrow> Inr b),
      read_text = (\<lambda>p. case map_of texts p of None \<Rightarrow> Inl FileNotFoundError | Some t \<Rightarrow> Inr t),
      os_walk = (\<lambda>d. if d = ''/repo/.git/objects''
                      then (d, []) # map (\<lambda>(h, b). (d @ ''/'' @ take 2 h, [drop 2 h])) objs
                      else []),
      can_write = (\<lambda>p. True),
      zlib_decompress = toy_decompress,
      utf8_decode = ascii_decode\<rparr>"

definition hash1 :: string where "hash1 = ''1111111111111111111111111111111111111111''"
definition hash2 :: string where "hash2 = ''2222222222222222222222222222222222222222''"
definition hash3 :: string where "hash3 = ''3333333333333333333333333333333333333333''"

definition root1_payload :: string where
  "root1_payload = ''tree aaa111'' @ [LF] @ ''author A <a@x> 100 +0000'' @ [LF] @
     ''committer A <a@x> 100 +0000'' @ [LF] @ [LF] @ ''one'' @ [LF]"

definition root2_payload :: string where
  "root2_payload = ''tree bbb222'' @ [LF] @ ''author B <b@x> 200 +0000'' @ [LF] @
     ''committer B <b@x> 200 +0000'' @ [LF] @ [LF] @ ''two'' @ [LF]"

definition merge_payload :: string where
  "merge_payload = ''tree ccc333'' @ [LF] @ ''parent '' @ hash1 @ [LF] @ ''parent '' @ hash2 @ [LF] @
     ''author C <c@x> 300 +0000'' @ [LF] @ ''committer C <c@x> 300 +0000'' @ [LF] @ [LF] @
     ''merge'' @ [LF]"

definition stored_commit :: "string \<Rightarrow> bytes" where
  "stored_commit payload = ''x'' @ ''commit '' @ str_nat (length payload) @ [NUL] @ payload"

text \<open>Two root commits with the tree hashes \<^verbatim>\<open>aaa111\<close> and \<^verbatim>\<open>bbb222\<close>.\<close>

definition two_trees :: env where
  "two_trees = fixture [(hash1, stored_commit root1_payload), (hash2, stored_commit root2_payload)] []"

text \<open>The two roots and a merge of them, which the branch \<^verbatim>\<open>main\<close> points to.\<close>

definition history :: env where
  "history = fixture
     [(hash1, stored_commit root1_payload), (hash2, stored_commit root2_payload),
      (hash3, stored_commit merge_payload)]
     [(''/repo/.git/HEAD'', ''ref: refs/heads/main'' @ [LF]),
      (''/repo/.git/refs/heads/main'', hash3 @ [LF])]"

text \<open>A store whose first file does not decompress, before a sound commit.\<close>

definition damaged :: env where
  "damaged = fixture [(hash1, ''garbage''), (hash2, stored_commit root2_payload)] []"

text \<open>
  An object whose header declares the length \<^verbatim>\<open>xyz\<close>, and one without header and null
  byte.
\<close>

definition odd_headers :: env where
  "odd_headers = fixture
     [(hash1, ''x'' @ ''commit xyz'' @ [NUL] @ root1_payload), (hash2, ''x'' @ root2_payload)] []"

text \<open>Two stored copies of one commit, so with one author time; the walk meets \<open>hash2\<close> first.\<close>

definition twins :: env where
  "twins = fixture [(hash2, stored_commit root1_payload), (hash1, stored_commit root1_payload)] []"

text \<open>A commit whose payload is the single byte \<^verbatim>\<open>0xFF\<close>, which no UTF-8 text contains.\<close>

definition undecodable :: env where
  "undecodable = fixture
     [(hash1, ''x'' @ ''commit 1'' @ [NUL] @ [CHR 0xFF]), (hash2, stored_commit root2_payload)] []"

text \<open>
  A commit with one \<^verbatim>\<open>parent\<close> header line, whose message has a line that starts with
  the word \<^verbatim>\<open>parent\<close>; \<^verbatim>\<open>HEAD\<close> holds its hash.
\<close>

definition renamed_payload :: string where
  "renamed_payload = ''tree ccc333'' @ [LF] @ ''parent '' @ hash1 @ [LF] @
     ''author C <c@x> 300 +0000'' @ [LF] @ ''committer C <c@x> 300 +0000'' @ [LF] @ [LF] @
     ''parent company renamed'' @ [LF]"

definition renamed :: env where
  "renamed = fixture
     [(hash1, stored_commit root1_payload), (hash3, stored_commit renamed_payload)]
     [(''/repo/.git/HEAD'', hash3 @ [LF])]"

text \<open>
  A host on which the date \<^verbatim>\<open>1970-01-01\<close> is the timestamp 0, the external renderer
  ends with return code 0 and the image can be renamed.
\<close>

definition quiet_host :: host where
  "quiet_host =
     \<lparr>strptime_timestamp = (\<lambda>s. if s = ''1970-01-01'' then Inr 0 else Inl ValueError),
      subprocess_run = (\<lambda>cmd written. Inr 0),
      os_rename = (\<lambda>src dst. None)\<rparr>"

section \<open>The diagram-markup renderer\<close>

lemma puml_edges_fst: "fst (puml_edges c ps i ls) = i + length ps"
  by (induction ps arbitrary: i ls) auto

lemma puml_edges_length: "length (snd (puml_edges c ps i ls)) = length ls + length ps"
  by (induction ps arbitrary: i ls) auto

lemma puml_edges_set:
  "l \<in> set (snd (puml_edges c ps i ls)) \<Longrightarrow>
   l \<in> set ls \<or> (\<exists>p k. p \<in> set ps \<and> l = puml_edge p c k)"
proof (induction ps arbitrary: i ls)
  case Nil
  then show ?case by simp
next
  case (Cons q qs)
  from Cons.prems have "l \<in> set (snd (puml_edges c qs (i + 1) (ls @ [puml_edge q c i])))"
    by simp
  from Cons.IH [OF this] show ?case by auto
qed

lemma puml_items_length:
  "length (puml_items g i ls) = length ls + sum_list (map (\<lambda>(c, ps). length ps) g)"
proof (induction g arbitrary: i ls)
  case Nil
  then show ?case by simp
next
  case (Cons a g)
  obtain c ps where a: "a = (c, ps)" by (cases a)
  show ?case
  proof (cases "ps = []")
    case True
    with a Cons.IH show ?thesis by simp
  next
    case False
    obtain j ms where e: "puml_edges c ps i ls = (j, ms)" by (cases "puml_edges c ps i ls")
    have "length ms = length ls + length ps"
      using puml_edges_length [of c ps i ls] e by simp
    with a e False Cons.IH [of j ms] show ?thesis by simp
  qed
qed

lemma puml_items_set:
  "l \<in> set (puml_items g i ls) \<Longrightarrow>
   l \<in> set ls \<or> (\<exists>c ps p k. (c, ps) \<in> set g \<and> p \<in> set ps \<and> l = puml_edge p c k)"
proof (induction g arbitrary: i ls)
  case Nil
  then show ?case by simp
next
  case (Cons a g)
  obtain c ps where a: "a = (c, ps)" by (cases a)
  show ?case
  proof (cases "ps = []")
    case True
    with a Cons.prems have "l \<in> set (puml_items g i ls)" by simp
    from Cons.IH [OF this] show ?thesis by auto
  next
    case False
    obtain j ms where e: "puml_edges c ps i ls = (j, ms)" by (cases "puml_edges c ps i ls")
    with a False Cons.prems have "l \<in> set (puml_items g j ms)" by simp
    from Cons.IH [OF this]
    consider "l \<in> set ms"
      | "\<exists>c' ps' p k. (c', ps') \<in> set g \<and> p \<in> set ps' \<and> l = puml_edge p c' k"
      by blast
    then show ?thesis
    proof cases
      case 1
      with e have "l \<in> set (snd (puml_edges c ps i ls))" by simp
      from puml_edges_set [OF this] a show ?thesis by auto
    next
      case 2
      then show ?thesis by auto
    qed
  qed
qed

lemma puml_items_roots: "\<forall>(c, ps) \<in> set g. ps = [] \<Longrightarrow> puml_items g i ls = ls"
  by (induction g arbitrary: i ls) auto

text \<open>
  Claim C10. \<^verbatim>\<open>generate_plantuml\<close> emits edge lines only: every line between the two
  markers is the edge of some parent of some commit of the graph, the number of lines is
  two more than the number of parent entries, so a commit with an empty parent list adds
  no line, and a graph in which every commit has an empty parent list renders as the two
  lines \<^verbatim>\<open>@startuml\<close> and \<^verbatim>\<open>@enduml\<close>.
\<close>

theorem plantuml_only_edges:
  "(\<forall>l \<in> set (generate_plantuml_lines g).
       l = ''@startuml'' \<or> l = ''@enduml'' \<or>
       (\<exists>c ps p k. (c, ps) \<in> set g \<and> p \<in> set ps \<and> l = puml_edge p c k))
   \<and> length (generate_plantuml_lines g) = 2 + sum_list (map (\<lambda>(c, ps). length ps) g)
   \<and> ((\<forall>(c, ps) \<in> set g. ps = []) \<longrightarrow> generate_plantuml g = ''@startuml'' @ [LF] @ ''@enduml'')"
proof (intro conjI)
  show "\<forall>l \<in> set (generate_plantuml_lines g).
       l = ''@startuml'' \<or> l = ''@enduml'' \<or>
       (\<exists>c ps p k. (c, ps) \<in> set g \<and> p \<in> set ps \<and> l = puml_edge p c k)"
    using puml_items_set [of _ g 1 "[''@startuml'']"]
    unfolding generate_plantuml_lines_def by fastforce
  show "length (generate_plantuml_lines g) = 2 + sum_list (map (\<lambda>(c, ps). length ps) g)"
    by (simp add: generate_plantuml_lines_def puml_items_length)
  show "(\<forall>(c, ps) \<in> set g. ps = []) \<longrightarrow> generate_plantuml g = ''@startuml'' @ [LF] @ ''@enduml''"
    by (simp add: generate_plantuml_def generate_plantuml_lines_def puml_items_roots)
qed

theorem plantuml_only_edges_witness:
  "generate_plantuml [(hash1, []), (hash2, [])] = ''@startuml'' @ [LF] @ ''@enduml''
   \<and> length (generate_plantuml_lines [(hash3, [hash1, hash2]), (hash1, [])]) = 4"
  using plantuml_only_edges [of "[(hash1, []), (hash2, [])]"]
    plantuml_only_edges [of "[(hash3, [hash1, hash2]), (hash1, [])]"]
  by simp

section \<open>The reader of test.py\<close>

text \<open>
  Claim C9. For a hash of fewer than 40 characters \<^verbatim>\<open>read_commit\<close> raises
  \<^verbatim>\<open>ValueError\<close>, and the list of its accesses to the file system is empty: the check
  stands before \<^verbatim>\<open>os.path.exists\<close> and \<^verbatim>\<open>open\<close>.
\<close>

theorem read_commit_short_hash:
  "length h < 40 \<Longrightarrow> read_commit e h repo_path = ([], Inl ValueError)"
  by (simp add: read_commit_def)

theorem read_commit_short_hash_witness:
  "length ''abc1234'' < 40 \<and> read_commit history ''abc1234'' ''/repo'' = ([], Inl ValueError)"
  using read_commit_short_hash [of "''abc1234''" history "''/repo''"] by simp

section \<open>The empty selection\<close>

text \<open>
  Both renderers turn the empty graph into a block without any edge: the DOT-like one into
  the opening line, the node defaults and the closing brace, the diagram-markup one into
  its two markers.
\<close>

lemma empty_graph_blocks:
  "generate_graphviz [] = ''digraph G {'' @ [LF] @ ''    node [shape=box, fontsize=10];'' @ [LF] @ ''}''"
  "generate_plantuml [] = ''@startuml'' @ [LF] @ ''@enduml''"
  by (simp_all add: generate_graphviz_def generate_graphviz_lines_def
        generate_plantuml_def generate_plantuml_lines_def)

lemma empty_graph_no_edge:
  "\<not> contains (generate_graphviz []) ''->''"
  "\<not> contains (generate_plantuml []) ''-->''"
  unfolding empty_graph_blocks by (simp_all add: startswith_def LF_def)

text \<open>
  When \<^verbatim>\<open>find_commits\<close> selects nothing, \<^verbatim>\<open>main\<close> of \<^verbatim>\<open>git_dependency_visualizer.py\<close>
  prints that no commit was found and ends with \<^verbatim>\<open>exit(0)\<close>, before any graph is built.
\<close>

lemma gdv_main_reports_empty_selection:
  "path_isdir e (path_join repo_path [''.git'']) \<Longrightarrow>
   find_commits e repo_path target_file = (out, Inr []) \<Longrightarrow>
   gdv_main e repo_path target_file output_file
     = (out @ [NoCommitsFound target_file], None, Exit 0)"
  by (simp add: gdv_main_def)

lemma two_trees_isdir: "path_isdir two_trees (path_join ''/repo'' [''.git''])"
  by (simp add: two_trees_def fixture_def path_join_def join2_def startswith_def)

lemma two_trees_ccc: "find_commits two_trees ''/repo'' ''ccc'' = ([], Inr [])"
  by code_simp

lemma two_trees_before_epoch: "build_commit_graph two_trees ''/repo'' 0 = Inr []"
  by code_simp

lemma two_trees_script:
  "vis_script two_trees quiet_host [''/repo'', ''1970-01-01'', ''graph.png'', ''plantuml.jar'']
     = ([GraphSaved ''graph.png''], Some (''graph.puml'', ''@startuml'' @ [LF] @ ''@enduml''),
        Returned)"
  by code_simp

text \<open>
  Claim C8, at an empty selection in \<^verbatim>\<open>visualizer.py\<close>. No commit of the store is as old
  as the cutoff, so the graph is empty. The script writes the block of the two markers,
  runs the external renderer on it and prints that the graph was saved: nothing says
  that no commit was selected. On the same store \<^verbatim>\<open>git_dependency_visualizer.py\<close>,
  asked for a target that no commit mentions, prints that no commit was found and ends
  with \<^verbatim>\<open>exit(0)\<close>.
\<close>

theorem visualizer_main_silent_on_empty_selection:
  "build_commit_graph two_trees ''/repo'' 0 = Inr []
   \<and> generate_plantuml [] = ''@startuml'' @ [LF] @ ''@enduml''
   \<and> vis_script two_trees quiet_host [''/repo'', ''1970-01-01'', ''graph.png'', ''plantuml.jar'']
       = ([GraphSaved ''graph.png''], Some (''graph.puml'', ''@startuml'' @ [LF] @ ''@enduml''),
          Returned)
   \<and> gdv_main two_trees ''/repo'' ''ccc'' ''out.dot'' = ([NoCommitsFound ''ccc''], None, Exit 0)"
  using two_trees_before_epoch empty_graph_blocks(2) two_trees_script
    gdv_main_reports_empty_selection [OF two_trees_isdir two_trees_ccc, of "''out.dot''"]
  by simp

section \<open>Selection by the tree reference\<close>

lemma startswith_prefix: "startswith s p \<longleftrightarrow> prefix p s"
  unfolding startswith_def prefix_def
  by (metis append_eq_conv_conj append_take_drop_id)

lemma contains_sublist: "contains s t \<longleftrightarrow> sublist t s"
  by (induction s) (auto simp: startswith_prefix sublist_Cons_right)

lemma find_commits_loop_filter:
  "find_commits_loop e r t hs acc out0 = (out, Inr commits) \<Longrightarrow>
   commits = acc @ filter (tree_mentions e r t) hs"
proof (induction hs arbitrary: acc out0)
  case Nil
  then show ?case by simp
next
  case (Cons h hs)
  show ?case
  proof (cases "gdv_read_git_object e r h")
    case (Inl err)
    with Cons.prems show ?thesis by simp
  next
    case (Inr hd)
    obtain header data where hd: "hd = (header, data)" by (cases hd)
    show ?thesis
    proof (cases "startswith header ''commit''")
      case False
      with Inr hd Cons.prems have "find_commits_loop e r t hs acc out0 = (out, Inr commits)"
        by simp
      from Cons.IH [OF this] Inr hd False show ?thesis
        by (simp add: tree_mentions_def)
    next
      case True
      show ?thesis
      proof (cases "utf8_decode e data")
        case None
        with Inr hd True Cons.prems
        have "find_commits_loop e r t hs acc (out0 @ [DecodeFailed h]) = (out, Inr commits)"
          by simp
        from Cons.IH [OF this] Inr hd True None show ?thesis
          by (simp add: tree_mentions_def)
      next
        case (Some cdata)
        show ?thesis
        proof (cases "gdv_parse_commit_data (PyStr cdata)")
          case (Inl err)
          with Inr hd True Some Cons.prems show ?thesis by simp
        next
          case md: (Inr parsed)
          show ?thesis
          proof (cases "contains (get_or_empty parsed ''tree'') t")
            case c: True
            with Inr hd True Some md Cons.prems
            have "find_commits_loop e r t hs (acc @ [h]) out0 = (out, Inr commits)"
              by simp
            from Cons.IH [OF this] Inr hd True Some md c show ?thesis
              by (simp add: tree_mentions_def contains_sublist)
          next
            case c: False
            with Inr hd True Some md Cons.prems
            have "find_commits_loop e r t hs acc out0 = (out, Inr commits)"
              by simp
            from Cons.IH [OF this] Inr hd True Some md c show ?thesis
              by (simp add: tree_mentions_def contains_sublist)
          qed
        qed
      qed
    qed
  qed
qed

lemma two_trees_aaa: "find_commits two_trees ''/repo'' ''aaa'' = ([], Inr [hash1])"
  by code_simp

lemma two_trees_objects: "list_git_objects two_trees ''/repo'' = [hash1, hash2]"
  by code_simp

text \<open>
  Claim C6. When the scan of \<^verbatim>\<open>find_commits\<close> comes to its end, the commits it returns
  are, in the order of the listing, exactly the listed objects that read as commits and
  have the target as a substring of the value stored under \<^verbatim>\<open>tree\<close>. In the store with
  the tree hashes \<^verbatim>\<open>aaa111\<close> and \<^verbatim>\<open>bbb222\<close> the target \<^verbatim>\<open>aaa\<close> selects the first commit
  only.
\<close>

theorem find_commits_by_tree_substring:
  "(find_commits e repo_path target_file = (out, Inr commits) \<longrightarrow>
      commits = filter (tree_mentions e repo_path target_file) (list_git_objects e repo_path))
   \<and> list_git_objects two_trees ''/repo'' = [hash1, hash2]
   \<and> find_commits two_trees ''/repo'' ''aaa'' = ([], Inr [hash1])"
proof (intro conjI impI)
  assume "find_commits e repo_path target_file = (out, Inr commits)"
  then show "commits = filter (tree_mentions e repo_path target_file) (list_git_objects e repo_path)"
    unfolding find_commits_def using find_commits_loop_filter by fastforce
next
  show "list_git_objects two_trees ''/repo'' = [hash1, hash2]"
    by (rule two_trees_objects)
next
  show "find_commits two_trees ''/repo'' ''aaa'' = ([], Inr [hash1])"
    by (rule two_trees_aaa)
qed

theorem find_commits_by_tree_substring_witness:
  "find_commits two_trees ''/repo'' ''aaa'' = ([], Inr [hash1])
   \<and> filter (tree_mentions two_trees ''/repo'' ''aaa'') [hash1, hash2] = [hash1]"
proof -
  note t = find_commits_by_tree_substring [of two_trees "''/repo''" "''aaa''" "[]" "[hash1]"]
  from t have a: "find_commits two_trees ''/repo'' ''aaa'' = ([], Inr [hash1])"
    by (rule conjunct2 [THEN conjunct2])
  from t have b: "list_git_objects two_trees ''/repo'' = [hash1, hash2]"
    by (rule conjunct2 [THEN conjunct1])
  from t a have "[hash1] = filter (tree_mentions two_trees ''/repo'' ''aaa'')
      (list_git_objects two_trees ''/repo'')"
    by (rule conjunct1 [THEN mp])
  with a b show ?thesis by (simp only:)
qed

section \<open>The store-wide filter by date\<close>

lemma scan_files_eq:
  "scan_files e r d root files acc
     = acc @ concat (map (\<lambda>f. kept_entry e r d (basename root @ f)) files)"
proof (induction files arbitrary: acc)
  case Nil
  then show ?case by simp
next
  case (Cons f files)
  show ?case
    by (simp add: Cons.IH kept_entry_def author_time_of_def Let_def
          split: sum.splits option.splits prod.splits)
qed

lemma scan_walk_eq:
  "scan_walk e r d w acc
     = acc @ concat (map (kept_entry e r d)
         (concat (map (\<lambda>(root, files). map (\<lambda>f. basename root @ f) files) w)))"
proof (induction w arbitrary: acc)
  case Nil
  then show ?case by simp
next
  case (Cons a w)
  obtain root files where a: "a = (root, files)" by (cases a)
  show ?case
    by (simp add: a Cons.IH scan_files_eq map_concat comp_def)
qed

lemma scanned_commits_eq:
  "scanned_commits e r d = concat (map (kept_entry e r d) (walked_hashes e r))"
  by (simp add: scanned_commits_def walked_hashes_def scan_walk_eq)

lemma scanned_entry:
  "(h, t) \<in> set (scanned_commits e r d) \<longleftrightarrow>
   h \<in> set (walked_hashes e r) \<and> author_time_of e r h = Some t \<and> t \<le> d"
  by (auto simp: scanned_commits_eq kept_entry_def split: option.splits if_splits)

lemma filter_kept:
  "map fst (filter (\<lambda>p. snd p = k) (concat (map (kept_entry e r d) hs)))
     = filter (\<lambda>h. author_time_of e r h = Some k \<and> k \<le> d) hs"
  by (induction hs) (auto simp: kept_entry_def split: option.splits)

lemma scanned_times:
  "p \<in> set (scanned_commits e r d) \<Longrightarrow> author_time_of e r (fst p) = Some (snd p)"
  using scanned_entry [of "fst p" "snd p" e r d] by simp

lemma get_all_commits_set:
  "set (get_all_commits e r d)
     = {h \<in> set (walked_hashes e r). \<exists>t. author_time_of e r h = Some t \<and> t \<le> d}"
proof -
  have "fst ` set (scanned_commits e r d)
          = {h \<in> set (walked_hashes e r). \<exists>t. author_time_of e r h = Some t \<and> t \<le> d}"
    using scanned_entry [of _ _ e r d] by force
  then show ?thesis by (simp add: get_all_commits_def)
qed

lemma get_all_commits_sorted:
  "sorted (map (\<lambda>h. the (author_time_of e r h)) (get_all_commits e r d))"
proof -
  have "map (\<lambda>h. the (author_time_of e r h)) (map fst (sort_key snd (scanned_commits e r d)))
          = map snd (sort_key snd (scanned_commits e r d))"
    using scanned_times [of _ e r d] by (simp add: set_sort)
  moreover have "sorted (map snd (sort_key snd (scanned_commits e r d)))"
    by (rule sorted_sort_key)
  ultimately show ?thesis by (simp only: get_all_commits_def)
qed

lemma get_all_commits_stable:
  "filter (\<lambda>h. author_time_of e r h = Some k) (get_all_commits e r d)
     = filter (\<lambda>h. author_time_of e r h = Some k \<and> k \<le> d) (walked_hashes e r)"
proof -
  let ?S = "scanned_commits e r d"
  have "filter (\<lambda>h. author_time_of e r h = Some k) (map fst (sort_key snd ?S))
          = map fst (filter (\<lambda>p. author_time_of e r (fst p) = Some k) (sort_key snd ?S))"
    by (simp add: filter_map comp_def)
  also have "filter (\<lambda>p. author_time_of e r (fst p) = Some k) (sort_key snd ?S)
          = filter (\<lambda>p. snd p = k) (sort_key snd ?S)"
    using scanned_times [of _ e r d] by (intro filter_cong) auto
  also have "\<dots> = filter (\<lambda>p. snd p = k) ?S"
    by (rule sort_key_stable)
  also have "map fst (filter (\<lambda>p. snd p = k) ?S)
          = filter (\<lambda>h. author_time_of e r h = Some k \<and> k \<le> d) (walked_hashes e r)"
    by (simp add: scanned_commits_eq filter_kept)
  finally show ?thesis by (simp add: get_all_commits_def)
qed

lemma get_all_commits_ignores_refs:
  "get_all_commits (e\<lparr>read_text := f\<rparr>) r d = get_all_commits e r d"
proof -
  have "author_time_of (e\<lparr>read_text := f\<rparr>) r = author_time_of e r"
    by (rule ext)
      (simp add: author_time_of_def vis_read_git_object_def Let_def
         cong: sum.case_cong option.case_cong if_cong)
  then have "kept_entry (e\<lparr>read_text := f\<rparr>) r d = kept_entry e r d"
    by (intro ext) (simp add: kept_entry_def)
  then show ?thesis
    by (simp add: get_all_commits_def scanned_commits_eq walked_hashes_def)
qed

text \<open>
  Claim C7. \<^verbatim>\<open>get_all_commits\<close> returns the hashes met by the walk over the store that read
  as commits with an author time at or before the cutoff, and no others; the times along
  the result ascend; for each time, the commits with that time stand in the order in which
  the walk met them; and the result does not depend on the files that hold the branch
  pointers, which the function never reads.
\<close>

theorem get_all_commits_global_filter:
  "set (get_all_commits e repo_path date_before)
     = {h \<in> set (walked_hashes e repo_path).
          \<exists>t. author_time_of e repo_path h = Some t \<and> t \<le> date_before}
   \<and> sorted (map (\<lambda>h. the (author_time_of e repo_path h)) (get_all_commits e repo_path date_before))
   \<and> filter (\<lambda>h. author_time_of e repo_path h = Some k) (get_all_commits e repo_path date_before)
       = filter (\<lambda>h. author_time_of e repo_path h = Some k \<and> k \<le> date_before)
           (walked_hashes e repo_path)
   \<and> get_all_commits (e\<lparr>read_text := f\<rparr>) repo_path date_before
       = get_all_commits e repo_path date_before"
  using get_all_commits_set get_all_commits_sorted get_all_commits_stable
    get_all_commits_ignores_refs
  by (intro conjI)

lemma twins_walked: "walked_hashes twins ''/repo'' = [hash2, hash1]"
  by code_simp

lemma twins_time1: "author_time_of twins ''/repo'' hash1 = Some 100"
  by code_simp

lemma twins_time2: "author_time_of twins ''/repo'' hash2 = Some 100"
  by code_simp

lemma history_before_250: "get_all_commits history ''/repo'' 250 = [hash1, hash2]"
  by code_simp

theorem get_all_commits_global_filter_witness:
  "get_all_commits twins ''/repo'' 150 = [hash2, hash1]
   \<and> get_all_commits history ''/repo'' 250 = [hash1, hash2]
   \<and> sorted (map (\<lambda>h. the (author_time_of history ''/repo'' h)) [hash1, hash2])"
proof -
  let ?r = "get_all_commits twins ''/repo'' 150"
  let ?P = "\<lambda>h. author_time_of twins ''/repo'' h = Some 100"
  note t = get_all_commits_global_filter [of twins "''/repo''" 150 100]
  have s: "set ?r = {h \<in> set [hash2, hash1].
      \<exists>t. author_time_of twins ''/repo'' h = Some t \<and> t \<le> 150}"
    using t [THEN conjunct1] unfolding twins_walked .
  have sub: "h = hash1 \<or> h = hash2" if "h \<in> set ?r" for h
    using that unfolding s by auto
  have all: "?P h" if "h \<in> set ?r" for h
    using sub [OF that] twins_time1 twins_time2 by blast
  have f1: "filter ?P ?r = ?r"
    unfolding filter_id_conv using all by blast
  have f2: "filter ?P ?r
      = filter (\<lambda>h. author_time_of twins ''/repo'' h = Some 100 \<and> (100::int) \<le> 150) [hash2, hash1]"
    using t [THEN conjunct2, THEN conjunct2, THEN conjunct1] unfolding twins_walked .
  have f3: "filter (\<lambda>h. author_time_of twins ''/repo'' h = Some 100 \<and> (100::int) \<le> 150) [hash2, hash1]
      = [hash2, hash1]"
    by (simp add: twins_time1 twins_time2)
  have "?r = filter ?P ?r" by (rule f1 [symmetric])
  also note f2
  also note f3
  finally have a: "?r = [hash2, hash1]" .
  have "sorted (map (\<lambda>h. the (author_time_of history ''/repo'' h))
      (get_all_commits history ''/repo'' 250))"
    using get_all_commits_global_filter [of history "''/repo''" 250 0]
    by (rule conjunct2 [THEN conjunct1])
  then have b: "sorted (map (\<lambda>h. the (author_time_of history ''/repo'' h)) [hash1, hash2])"
    unfolding history_before_250 .
  show ?thesis using a b history_before_250 by blast
qed

section \<open>Reading one object\<close>

lemma path_join_object:
  "path_join (path_join r [''.git'', ''objects'', take 2 h]) [drop 2 h] = loose_object_path r h"
  by (simp add: path_join_def loose_object_path_def)

lemma path_join_object2:
  "path_join (path_join r [''.git'', ''objects'']) [take 2 h, drop 2 h] = loose_object_path r h"
  by (simp add: path_join_def loose_object_path_def)

text \<open>
  Claim C5, as stated, fails. The reader of \<^verbatim>\<open>git_dependency_visualizer.py\<close> returns the
  object whose header declares the length \<^verbatim>\<open>xyz\<close>, and the reader of \<^verbatim>\<open>visualizer.py\<close>
  returns the bytes of an object that has no null byte at all.
\<close>

theorem reader_accepts_malformed_header:
  "gdv_read_git_object odd_headers ''/repo'' hash1 = Inr (''commit xyz'', root1_payload)
   \<and> vis_read_git_object odd_headers ''/repo'' hash2 = Inr root2_payload
   \<and> NUL \<notin> set root2_payload"
  by code_simp

lemma split_once_at: "sep \<notin> set xs \<Longrightarrow> split_once sep (xs @ [sep] @ ys) = [xs, ys]"
  by (induction xs) (auto simp: split_once_def)

text \<open>
  Claim C5, amended. A missing file makes every reader raise \<^verbatim>\<open>FileNotFoundError\<close> (the
  spec's ObjectNotFound) and bytes that do not decompress make every reader raise
  \<^verbatim>\<open>zlib.error\<close> (CorruptObject); for \<^verbatim>\<open>read_commit\<close> of \<^verbatim>\<open>test.py\<close> this holds at a
  hash of 40 characters or more, a shorter hash raises \<^verbatim>\<open>ValueError\<close> before that. The
  reader of \<^verbatim>\<open>git_dependency_visualizer.py\<close> also raises \<^verbatim>\<open>ValueError\<close> when the
  decompressed bytes have no null byte; when they have one, it returns the decoded bytes
  before the first null byte and the bytes after it, whatever stands in the header
  (\<^verbatim>\<open>UnicodeDecodeError\<close> if the header does not decode): the declared length is not
  looked at. The readers of \<^verbatim>\<open>visualizer.py\<close> and \<^verbatim>\<open>test.py\<close> do not split the header
  off: the first returns all decompressed bytes, the second hands all of them to its
  parser.
\<close>

theorem reader_failures:
  "(read_bytes e (loose_object_path r h) = Inl FileNotFoundError \<longrightarrow>
      gdv_read_git_object e r h = Inl FileNotFoundError)
   \<and> (\<not> path_exists e (loose_object_path r h) \<longrightarrow>
        vis_read_git_object e r h = Inl FileNotFoundError
        \<and> (40 \<le> length h \<longrightarrow> snd (read_commit e h r) = Inl FileNotFoundError))
   \<and> (read_bytes e (loose_object_path r h) = Inr c \<and> zlib_decompress e c = None \<longrightarrow>
        gdv_read_git_object e r h = Inl ZlibError
        \<and> (path_exists e (loose_object_path r h) \<longrightarrow>
             vis_read_git_object e r h = Inl ZlibError
             \<and> (40 \<le> length h \<longrightarrow> snd (read_commit e h r) = Inl ZlibError)))
   \<and> (read_bytes e (loose_object_path r h) = Inr c \<and> zlib_decompress e c = Some d
        \<and> NUL \<notin> set d \<longrightarrow>
        gdv_read_git_object e r h = Inl ValueError)
   \<and> (read_bytes e (loose_object_path r h) = Inr c
        \<and> zlib_decompress e c = Some (header @ [NUL] @ data) \<and> NUL \<notin> set header \<longrightarrow>
        gdv_read_git_object e r h
          = (case utf8_decode e header of
               None \<Rightarrow> Inl UnicodeDecodeError
             | Some decoded \<Rightarrow> Inr (decoded, data)))
   \<and> (path_exists e (loose_object_path r h) \<and> read_bytes e (loose_object_path r h) = Inr c
        \<and> zlib_decompress e c = Some d \<longrightarrow>
        vis_read_git_object e r h = Inr d)
   \<and> (40 \<le> length h \<and> path_exists e (loose_object_path r h)
        \<and> read_bytes e (loose_object_path r h) = Inr c \<and> zlib_decompress e c = Some d \<longrightarrow>
        snd (read_commit e h r) = test_parse_commit_data e d h)
   \<and> (length h < 40 \<longrightarrow> snd (read_commit e h r) = Inl ValueError)"
proof (intro conjI)
  show "read_bytes e (loose_object_path r h) = Inl FileNotFoundError \<longrightarrow>
      gdv_read_git_object e r h = Inl FileNotFoundError"
    by (simp add: gdv_read_git_object_def path_join_object Let_def)
  show "\<not> path_exists e (loose_object_path r h) \<longrightarrow>
        vis_read_git_object e r h = Inl FileNotFoundError
        \<and> (40 \<le> length h \<longrightarrow> snd (read_commit e h r) = Inl FileNotFoundError)"
    by (simp add: vis_read_git_object_def read_commit_def path_join_object path_join_object2
          Let_def)
  show "read_bytes e (loose_object_path r h) = Inr c \<and> zlib_decompress e c = None \<longrightarrow>
        gdv_read_git_object e r h = Inl ZlibError
        \<and> (path_exists e (loose_object_path r h) \<longrightarrow>
             vis_read_git_object e r h = Inl ZlibError
             \<and> (40 \<le> length h \<longrightarrow> snd (read_commit e h r) = Inl ZlibError))"
    by (simp add: gdv_read_git_object_def vis_read_git_object_def read_commit_def
          path_join_object path_join_object2 Let_def)
  show "read_bytes e (loose_object_path r h) = Inr c \<and> zlib_decompress e c = Some d
        \<and> NUL \<notin> set d \<longrightarrow>
        gdv_read_git_object e r h = Inl ValueError"
    by (simp add: gdv_read_git_object_def path_join_object split_once_def Let_def)
  show "read_bytes e (loose_object_path r h) = Inr c
        \<and> zlib_decompress e c = Some (header @ [NUL] @ data) \<and> NUL \<notin> set header \<longrightarrow>
        gdv_read_git_object e r h
          = (case utf8_decode e header of
               None \<Rightarrow> Inl UnicodeDecodeError
             | Some decoded \<Rightarrow> Inr (decoded, data))"
    using split_once_at [of NUL header data]
    by (simp add: gdv_read_git_object_def path_join_object Let_def)
  show "path_exists e (loose_object_path r h) \<and> read_bytes e (loose_object_path r h) = Inr c
        \<and> zlib_decompress e c = Some d \<longrightarrow>
        vis_read_git_object e r h = Inr d"
    by (simp add: vis_read_git_object_def path_join_object Let_def)
  show "40 \<le> length h \<and> path_exists e (loose_object_path r h)
        \<and> read_bytes e (loose_object_path r h) = Inr c \<and> zlib_decompress e c = Some d \<longrightarrow>
        snd (read_commit e h r) = test_parse_commit_data e d h"
    by (simp add: read_commit_def path_join_object2 Let_def)
  show "length h < 40 \<longrightarrow> snd (read_commit e h r) = Inl ValueError"
    by (simp add: read_commit_def Let_def)
qed

lemma damaged_missing: "read_bytes damaged (loose_object_path ''/repo'' hash3) = Inl FileNotFoundError"
  by code_simp

lemma damaged_absent: "\<not> path_exists damaged (loose_object_path ''/repo'' hash3)"
  by code_simp

lemma damaged_present: "path_exists damaged (loose_object_path ''/repo'' hash1)"
  by code_simp

lemma damaged_garbage: "read_bytes damaged (loose_object_path ''/repo'' hash1) = Inr ''garbage''"
  by code_simp

lemma garbage_inflate: "zlib_decompress damaged ''garbage'' = None"
  by code_simp

lemma odd_present: "path_exists odd_headers (loose_object_path ''/repo'' hash2)"
  by code_simp

lemma odd_bytes: "read_bytes odd_headers (loose_object_path ''/repo'' hash2) = Inr (''x'' @ root2_payload)"
  by code_simp

lemma odd_inflate: "zlib_decompress odd_headers (''x'' @ root2_payload) = Some root2_payload"
  by code_simp

lemma odd_bytes1:
  "read_bytes odd_headers (loose_object_path ''/repo'' hash1)
     = Inr (''x'' @ ''commit xyz'' @ [NUL] @ root1_payload)"
  by code_simp

lemma odd_inflate1:
  "zlib_decompress odd_headers (''x'' @ ''commit xyz'' @ [NUL] @ root1_payload)
     = Some (''commit xyz'' @ [NUL] @ root1_payload)"
  by code_simp

lemma odd_header1: "NUL \<notin> set ''commit xyz''" "utf8_decode odd_headers ''commit xyz'' = Some ''commit xyz''"
  by code_simp+

lemma root2_no_nul: "NUL \<notin> set root2_payload"
  by code_simp

lemma hash_lengths: "40 \<le> length hash1" "40 \<le> length hash2" "40 \<le> length hash3"
  by (simp_all add: hash1_def hash2_def hash3_def)

theorem reader_failures_witness:
  "gdv_read_git_object damaged ''/repo'' hash3 = Inl FileNotFoundError
   \<and> vis_read_git_object damaged ''/repo'' hash3 = Inl FileNotFoundError
   \<and> snd (read_commit damaged hash3 ''/repo'') = Inl FileNotFoundError
   \<and> gdv_read_git_object damaged ''/repo'' hash1 = Inl ZlibError
   \<and> vis_read_git_object damaged ''/repo'' hash1 = Inl ZlibError
   \<and> snd (read_commit damaged hash1 ''/repo'') = Inl ZlibError
   \<and> gdv_read_git_object odd_headers ''/repo'' hash2 = Inl ValueError
   \<and> gdv_read_git_object odd_headers ''/repo'' hash1 = Inr (''commit xyz'', root1_payload)
   \<and> vis_read_git_object odd_headers ''/repo'' hash2 = Inr root2_payload
   \<and> snd (read_commit odd_headers hash2 ''/repo'')
       = test_parse_commit_data odd_headers root2_payload hash2
   \<and> snd (read_commit odd_headers ''abc'' ''/repo'') = Inl ValueError"
proof -
  note missing = reader_failures [where e = damaged and r = "''/repo''" and h = hash3]
  note garbage = reader_failures [where e = damaged and r = "''/repo''" and h = hash1
      and c = "''garbage''"]
  note bare = reader_failures [where e = odd_headers and r = "''/repo''" and h = hash2
      and c = "''x'' @ root2_payload" and d = root2_payload]
  note odd = reader_failures [where e = odd_headers and r = "''/repo''" and h = hash1
      and c = "''x'' @ ''commit xyz'' @ [NUL] @ root1_payload" and header = "''commit xyz''"
      and data = root1_payload]
  note short = reader_failures [where e = odd_headers and r = "''/repo''" and h = "''abc''"]
  from missing damaged_missing damaged_absent hash_lengths
  have a: "gdv_read_git_object damaged ''/repo'' hash3 = Inl FileNotFoundError"
    "vis_read_git_object damaged ''/repo'' hash3 = Inl FileNotFoundError"
    "snd (read_commit damaged hash3 ''/repo'') = Inl FileNotFoundError"
    by blast+
  from garbage damaged_present damaged_garbage garbage_inflate hash_lengths
  have b: "gdv_read_git_object damaged ''/repo'' hash1 = Inl ZlibError"
    "vis_read_git_object damaged ''/repo'' hash1 = Inl ZlibError"
    "snd (read_commit damaged hash1 ''/repo'') = Inl ZlibError"
    by blast+
  from bare odd_present odd_bytes odd_inflate root2_no_nul hash_lengths
  have c: "gdv_read_git_object odd_headers ''/repo'' hash2 = Inl ValueError"
    "vis_read_git_object odd_headers ''/repo'' hash2 = Inr root2_payload"
    "snd (read_commit odd_headers hash2 ''/repo'')
       = test_parse_commit_data odd_headers root2_payload hash2"
    by blast+
  from odd odd_bytes1 odd_inflate1 odd_header1(1)
  have "gdv_read_git_object odd_headers ''/repo'' hash1
      = (case utf8_decode odd_headers ''commit xyz'' of
           None \<Rightarrow> Inl UnicodeDecodeError
         | Some decoded \<Rightarrow> Inr (decoded, root1_payload))"
    by blast
  then have d: "gdv_read_git_object odd_headers ''/repo'' hash1 = Inr (''commit xyz'', root1_payload)"
    unfolding odd_header1(2) by simp
  have "length ''abc'' < 40" by simp
  with short have e: "snd (read_commit odd_headers ''abc'' ''/repo'') = Inl ValueError"
    by blast
  from a b c d e show ?thesis by blast
qed

section \<open>Merge commits in git\_dependency\_visualizer.py\<close>

text \<open>
  The parser of \<^verbatim>\<open>visualizer.py\<close> keeps the second word of every header line that starts
  with \<^verbatim>\<open>parent\<close>, in the order of the lines.
\<close>

lemma tree_line_not_parent: "startswith line ''tree'' \<Longrightarrow> \<not> startswith line ''parent''"
  by (cases line) (auto simp: startswith_def)

lemma keyword_line_nonempty:
  "startswith line ''tree'' \<or> startswith line ''parent'' \<or> startswith line ''author'' \<Longrightarrow> line \<noteq> []"
  by (auto simp: startswith_def)

lemma parse_commit_lines_parents:
  "parse_commit_lines lines th ps a = Inr (th', ps', a') \<Longrightarrow>
   ps' = ps @ map (\<lambda>l. split_ws l ! 1) (parent_header_lines lines)"
proof (induction lines arbitrary: th ps a)
  case Nil
  then show ?case by (simp add: parent_header_lines_def)
next
  case (Cons line lines)
  have hd: "parent_header_lines (line # lines)
      = (if line = [] then []
         else (if startswith line ''parent'' then [line] else []) @ parent_header_lines lines)"
    by (simp add: parent_header_lines_def)
  consider (tree) "startswith line ''tree''"
    | (parent) "\<not> startswith line ''tree''" "startswith line ''parent''"
    | (author) "\<not> startswith line ''tree''" "\<not> startswith line ''parent''" "startswith line ''author''"
    | (blank) "\<not> startswith line ''tree''" "\<not> startswith line ''parent''"
        "\<not> startswith line ''author''" "line = []"
    | (other) "\<not> startswith line ''tree''" "\<not> startswith line ''parent''"
        "\<not> startswith line ''author''" "line \<noteq> []"
    by blast
  then show ?case
  proof cases
    case tree
    with Cons.prems obtain w where
      rest: "parse_commit_lines lines (Some w) ps a = Inr (th', ps', a')"
      by (auto split: sum.splits)
    from Cons.IH [OF rest] tree tree_line_not_parent [OF tree] keyword_line_nonempty [of line]
    show ?thesis by (simp add: hd)
  next
    case parent
    with Cons.prems obtain w where w: "item (split_ws line) 1 = Inr w"
      and rest: "parse_commit_lines lines th (ps @ [w]) a = Inr (th', ps', a')"
      by (auto split: sum.splits)
    from w have "w = split_ws line ! 1" by (auto simp: item_def split: if_splits)
    with Cons.IH [OF rest] parent keyword_line_nonempty [of line]
    show ?thesis by (simp add: hd)
  next
    case author
    with Cons.prems obtain t where
      rest: "parse_commit_lines lines th ps (Some t) = Inr (th', ps', a')"
      by (auto split: sum.splits option.splits)
    from Cons.IH [OF rest] author keyword_line_nonempty [of line]
    show ?thesis by (simp add: hd)
  next
    case blank
    with Cons.prems show ?thesis by (simp add: parent_header_lines_def)
  next
    case other
    with Cons.prems have rest: "parse_commit_lines lines th ps a = Inr (th', ps', a')"
      by simp
    from Cons.IH [OF rest] other show ?thesis by (simp add: hd)
  qed
qed

lemma parse_commit_object_parents:
  assumes "parse_commit_object commit_data = Inr (tree_hash, parents, author_time)"
  shows "parents = map (\<lambda>l. split_ws l ! 1) (parent_header_lines (split_on LF commit_data))"
    and "length parents = length (parent_header_lines (split_on LF commit_data))"
  using parse_commit_lines_parents [of "split_on LF commit_data" None "[]" None] assms
  by (simp_all add: parse_commit_object_def)

text \<open>
  Claim C1, at a merge commit. The payload has two \<^verbatim>\<open>parent\<close> header lines, but the
  dictionary of \<^verbatim>\<open>parse_commit_data\<close> holds one value under the key \<^verbatim>\<open>parent\<close>, the
  second line replaces the first, and \<^verbatim>\<open>parent_hashes\<close> has the one element \<open>hash2\<close>.
  \<^verbatim>\<open>parse_commit_object\<close> of \<^verbatim>\<open>visualizer.py\<close> returns both parents in order.
\<close>

theorem parse_commit_data_keeps_one_parent:
  "parent_header_lines (str_splitlines merge_payload) = [''parent '' @ hash1, ''parent '' @ hash2]
   \<and> map_sum id (\<lambda>metadata. split_ws (get_or_empty metadata ''parent''))
         (gdv_parse_commit_data (PyStr merge_payload)) = Inr [hash2]
   \<and> parse_commit_object merge_payload = Inr (Some ''ccc333'', [hash1, hash2], Some 300)"
  by code_simp

text \<open>
  Claim C3, at the same merge commit. \<^verbatim>\<open>find_commits\<close> selects it, then
  \<^verbatim>\<open>build_dependency_graph\<close> hands the undecoded bytes to \<^verbatim>\<open>parse_commit_data\<close> and the
  run ends in \<^verbatim>\<open>TypeError\<close>: no graph and no edge is produced. The path through
  \<^verbatim>\<open>visualizer.py\<close> renders the two edges of the merge.
\<close>

theorem build_dependency_graph_raises_on_merge:
  "find_commits history ''/repo'' ''ccc'' = ([], Inr [hash3])
   \<and> build_dependency_graph history ''/repo'' [hash3] = Inl TypeError
   \<and> gdv_main history ''/repo'' ''ccc'' ''out.dot'' = ([], None, Uncaught TypeError)
   \<and> map_sum id generate_plantuml_lines (build_commit_graph history ''/repo'' 300)
       = Inr [''@startuml'', puml_edge hash1 hash3 1, puml_edge hash2 hash3 2, ''@enduml'']"
  by code_simp

section \<open>A damaged object in a scan\<close>

text \<open>
  Claim C4, at a store whose first file does not decompress. \<^verbatim>\<open>find_commits\<close> ends in
  \<^verbatim>\<open>zlib.error\<close> and never comes to the second object, a commit that mentions the
  target; \<^verbatim>\<open>get_all_commits\<close> skips the damaged file and returns that commit. A payload
  that is not UTF-8 is skipped by \<^verbatim>\<open>find_commits\<close> with a message, as claimed.
\<close>

theorem find_commits_stops_at_corrupt_object:
  "list_git_objects damaged ''/repo'' = [hash1, hash2]
   \<and> find_commits damaged ''/repo'' ''bbb'' = ([], Inl ZlibError)
   \<and> tree_mentions damaged ''/repo'' ''bbb'' hash2
   \<and> get_all_commits damaged ''/repo'' 250 = [hash2]
   \<and> find_commits undecodable ''/repo'' ''bbb'' = ([DecodeFailed hash1], Inr [hash2])"
  by code_simp

section \<open>The walk along the parents\<close>

lemma split_ws_from_nonempty: "w \<in> set (split_ws_from cur s) \<Longrightarrow> w \<noteq> []"
  by (induction s arbitrary: cur) (auto split: if_splits)

lemma item_split_ws:
  assumes "item (split_ws l) i = Inr w"
  shows "w = split_ws l ! i \<and> w \<noteq> []"
proof -
  from assms have i: "i < length (split_ws l)" and w: "w = split_ws l ! i"
    by (auto simp: item_def split: if_splits)
  then have "w \<in> set (split_ws_from [] l)"
    by (simp add: split_ws_def)
  from split_ws_from_nonempty [OF this] w show ?thesis by blast
qed

lemma test_parse_lines_parent:
  "test_parse_lines lines cd = Inr cd' \<Longrightarrow>
   parent cd' = (case filter (\<lambda>l. startswith l ''parent'') lines of
                   [] \<Rightarrow> parent cd
                 | l # ls \<Rightarrow> Some (split_ws (last (l # ls)) ! 1))"
proof (induction lines arbitrary: cd)
  case Nil
  then show ?case by simp
next
  case (Cons line lines)
  show ?case
  proof (cases "startswith line ''parent''")
    case True
    with Cons.prems obtain w where w: "item (split_ws line) 1 = Inr w"
      and rest: "test_parse_lines lines (cd\<lparr>parent := Some w\<rparr>) = Inr cd'"
      by (auto split: sum.splits)
    from item_split_ws [OF w] have "w = split_ws line ! 1" by simp
    with Cons.IH [OF rest] True show ?thesis
      by (simp split: list.splits)
  next
    case False
    with Cons.prems obtain cd1 where rest: "test_parse_lines lines cd1 = Inr cd'"
      and same: "parent cd1 = parent cd"
      by (auto simp: Let_def split: if_splits sum.splits option.splits)
    from Cons.IH [OF rest] same False show ?thesis
      by (simp split: list.splits)
  qed
qed

lemma test_parse_lines_parent_nonempty:
  "test_parse_lines lines cd = Inr cd' \<Longrightarrow> parent cd \<noteq> Some [] \<Longrightarrow> parent cd' \<noteq> Some []"
proof (induction lines arbitrary: cd)
  case Nil
  then show ?case by simp
next
  case (Cons line lines)
  show ?case
  proof (cases "startswith line ''parent''")
    case True
    with Cons.prems obtain w where w: "item (split_ws line) 1 = Inr w"
      and rest: "test_parse_lines lines (cd\<lparr>parent := Some w\<rparr>) = Inr cd'"
      by (auto split: sum.splits)
    from item_split_ws [OF w] have "w \<noteq> []" by blast
    then have "parent (cd\<lparr>parent := Some w\<rparr>) \<noteq> Some []" by simp
    from Cons.IH [OF rest this] show ?thesis .
  next
    case False
    with Cons.prems obtain cd1 where rest: "test_parse_lines lines cd1 = Inr cd'"
      and same: "parent cd1 = parent cd"
      by (auto simp: Let_def split: if_splits sum.splits option.splits)
    from Cons.prems(2) same have "parent cd1 \<noteq> Some []" by simp
    from Cons.IH [OF rest this] show ?thesis .
  qed
qed

lemma read_commit_parts:
  assumes "snd (read_commit e h r) = Inr cd"
  shows "40 \<le> length h \<and>
    (\<exists>content data payload.
       read_bytes e (loose_object_path r h) = Inr content \<and>
       zlib_decompress e content = Some data \<and>
       utf8_decode e data = Some payload \<and>
       test_parse_lines (split_on LF payload) (new_commit h) = Inr cd)"
  using assms
  by (auto simp: read_commit_def test_parse_commit_data_def Let_def path_join_def
        loose_object_path_def split: if_splits sum.splits option.splits)

lemma read_commit_parent:
  assumes "snd (read_commit e h r) = Inr cd"
  shows "\<exists>content data payload.
       read_bytes e (loose_object_path r h) = Inr content \<and>
       zlib_decompress e content = Some data \<and>
       utf8_decode e data = Some payload \<and>
       parent cd = last_parent payload"
proof -
  from read_commit_parts [OF assms] obtain content data payload where
    a: "read_bytes e (loose_object_path r h) = Inr content"
       "zlib_decompress e content = Some data"
       "utf8_decode e data = Some payload"
    and p: "test_parse_lines (split_on LF payload) (new_commit h) = Inr cd"
    by blast
  from test_parse_lines_parent [OF p] have "parent cd = last_parent payload"
    by (simp add: last_parent_def parent_lines_def new_commit_def split: list.splits)
  with a show ?thesis by blast
qed

lemma read_commit_parent_nonempty:
  assumes "snd (read_commit e h r) = Inr cd"
  shows "parent cd \<noteq> Some []" and "h \<noteq> []"
proof -
  from read_commit_parts [OF assms] obtain payload where
    p: "test_parse_lines (split_on LF payload) (new_commit h) = Inr cd" and l: "40 \<le> length h"
    by blast
  from test_parse_lines_parent_nonempty [OF p] show "parent cd \<noteq> Some []"
    by (simp add: new_commit_def)
  from l show "h \<noteq> []" by auto
qed

text \<open>
  What the loop of \<^verbatim>\<open>get_commits_after_date\<close> does at a commit that reads and has a
  usable committer time: the key \<^verbatim>\<open>parent\<close> holds the second word of the last line of
  the whole payload that starts with \<^verbatim>\<open>parent\<close>, the loop goes on with that hash, and
  it returns when there is no such line.
\<close>

lemma walk_at_commit:
  assumes rc: "snd (read_commit e h r) = Inr cd" and ts: "committer_timestamp cd = Some t"
    and dt: "datetime_fromtimestamp t = Inr date"
  shows "(\<exists>content data payload.
         read_bytes e (loose_object_path r h) = Inr content \<and>
         zlib_decompress e content = Some data \<and>
         utf8_decode e data = Some payload \<and>
         parent cd = last_parent payload)
      \<and> (\<forall>p. parent cd = Some p \<longrightarrow>
            walk_commits (Suc n) e r start h acc
              = walk_commits n e r start p (if start \<le> date then acc @ [cd] else acc))
      \<and> (parent cd = None \<longrightarrow>
            walk_commits (Suc n) e r start h acc
              = Some (Inr (if start \<le> date then acc @ [cd] else acc)))"
proof (intro conjI)
  show "\<exists>content data payload.
         read_bytes e (loose_object_path r h) = Inr content \<and>
         zlib_decompress e content = Some data \<and>
         utf8_decode e data = Some payload \<and>
         parent cd = last_parent payload"
    by (rule read_commit_parent [OF rc])
  from read_commit_parent_nonempty [OF rc] have ne: "parent cd \<noteq> Some []" and h: "h \<noteq> []"
    by blast+
  show "\<forall>p. parent cd = Some p \<longrightarrow>
            walk_commits (Suc n) e r start h acc
              = walk_commits n e r start p (if start \<le> date then acc @ [cd] else acc)"
    using rc ts dt ne h by (auto simp: Let_def)
  show "parent cd = None \<longrightarrow>
            walk_commits (Suc n) e r start h acc
              = Some (Inr (if start \<le> date then acc @ [cd] else acc))"
    using rc ts dt h by (auto simp: Let_def)
qed

text \<open>
  The lines after the empty line are read as well: a message line that starts with the
  word \<^verbatim>\<open>parent\<close> replaces the parent of the header, and the walk ends in the
  \<^verbatim>\<open>ValueError\<close> of \<^verbatim>\<open>read_commit\<close> on the word that follows.
\<close>

lemma walk_reads_message_lines:
  "parent_header_lines (split_on LF renamed_payload) = [''parent '' @ hash1]
   \<and> map_sum id parent (snd (read_commit renamed hash3 ''/repo'')) = Inr (Some ''company'')
   \<and> get_commits_after_date 5 renamed ''/repo'' 0 = Some (Inl ValueError)"
  by code_simp

text \<open>
  Claim C2, at a merge commit. The branch points to a merge commit whose \<^verbatim>\<open>parent\<close>
  lines name \<open>hash1\<close> first and \<open>hash2\<close> second. With a cutoff that keeps every commit
  met, the walk returns the merge and then \<open>hash2\<close>: every line that starts with
  \<^verbatim>\<open>parent\<close> has overwritten the one key \<^verbatim>\<open>parent\<close>, so the walk has followed the
  second parent and has never read the first.
\<close>

theorem walk_takes_last_parent:
  "parent_header_lines (split_on LF merge_payload) = [''parent '' @ hash1, ''parent '' @ hash2]
   \<and> map_option (map_sum id (map commit_hash)) (get_commits_after_date 5 history ''/repo'' 0)
       = Some (Inr [hash3, hash2])"
  by code_simp

end
